theory Spec2Isabelle
  imports Main
begin

section \<open>The Wyronix client (src/app.js): data model\<close>

text \<open>
  The class \<^verbatim>\<open>WyronixEngine\<close> of \<^verbatim>\<open>src/app.js\<close> keeps its state in three places:
  its own fields (\<^verbatim>\<open>this.state\<close>, \<^verbatim>\<open>this.isPremium\<close>, \<^verbatim>\<open>this.searchCount\<close>), the DOM
  elements it looked up once in the constructor (\<^verbatim>\<open>this.dom\<close>), and the browser
  (\<^verbatim>\<open>localStorage\<close>, the console, timers, the network). Every method mutates these in
  place; the model passes one record of all of it through each method and returns it
  updated. JavaScript strings are modelled as \<^typ>\<open>string\<close>, read as UTF-8 bytes.

  A DOM element is one record with the attributes the program touches. An element
  that \<^verbatim>\<open>getElementById\<close> did not find is \<^verbatim>\<open>null\<close>, modelled as \<^term>\<open>None\<close>; the
  guards \<^verbatim>\<open>if (this.dom.x)\<close> of the source are the \<^const>\<open>map_option\<close> of the model, and
  an unguarded property access on \<^verbatim>\<open>null\<close> is the thrown \<^verbatim>\<open>TypeError\<close>.
\<close>

text \<open>A node created by \<^verbatim>\<open>document.createElement\<close> and appended to a container.\<close>

record child =
  child_tagName :: string
  child_className :: string
  child_innerText :: string
  child_marginBottom :: string

text \<open>
  \<open>classList\<close> is the ordered token set of the \<^verbatim>\<open>class\<close> attribute; \<open>opacity\<close>,
  \<open>borderColor\<close>, \<open>width\<close> and \<open>background\<close> are the inline \<^verbatim>\<open>style\<close> properties;
  \<open>parent_borderColor\<close> is \<^verbatim>\<open>parentElement.style.borderColor\<close> (an element found by
  \<^verbatim>\<open>getElementById\<close> is in the document and has a parent element). \<open>innerText\<close> and the
  style properties hold the string last assigned to them; \<open>children\<close> are the nodes
  appended to a container.
\<close>

record element =
  classList :: "string list"
  innerText :: string
  children :: "child list"
  input_value :: string
  disabled :: bool
  opacity :: string
  borderColor :: string
  width :: string
  background :: string
  parent_borderColor :: string

text \<open>
  \<^verbatim>\<open>this.dom\<close>, with the source's names, and the two elements \<^verbatim>\<open>valHeat\<close> and \<^verbatim>\<open>valROI\<close>
  that \<^verbatim>\<open>handleBackendMessage\<close> looks up when it needs them. The modal elements that
  only \<^verbatim>\<open>initListeners\<close> uses are left out.
\<close>

record dom_elements =
  input :: "element option"
  island :: "element option"
  islandText :: "element option"
  islandSpinner :: "element option"
  islandDot :: "element option"
  cardSearch :: "element option"
  cardAnalyst :: "element option"
  cardDev :: "element option"
  terminal :: "element option"
  tags :: "element option"
  gauges :: "element option"
  verdict :: "element option"
  fileTree :: "element option"
  codePreview :: "element option"
  btnExport :: "element option"
  paywallModal :: "element option"
  progressHeat :: "element option"
  progressROI :: "element option"
  valHeat :: "element option"
  valROI :: "element option"

text \<open>
  An Update Event as \<^verbatim>\<open>JSON.parse\<close> delivers it: an object whose fields may be absent.
  A field that is present has the type the protocol gives it: the texts are strings,
  the gauge numbers are integers.
\<close>

record msg_metrics_obj =
  metrics_heat :: "int option"
  metrics_roi :: "int option"
  metrics_verdict :: "string option"

record msg_data_obj =
  data_tag :: "string option"

record msg =
  msg_agent :: "string option"
  msg_content :: "string option"
  msg_data :: "msg_data_obj option"
  msg_metrics :: "msg_metrics_obj option"
  msg_file :: "string option"
  msg_code :: "string option"

text \<open>
  What the program does to the world outside the page, in the order it does it: console
  output, writes to \<^verbatim>\<open>localStorage\<close>, requests sent with \<^verbatim>\<open>fetch\<close> (the body kept as the idea
  it carries) and timers set with \<^verbatim>\<open>setTimeout\<close> (callback and delay).
\<close>

record request =
  req_url :: string
  req_method :: string
  req_headers :: "(string \<times> string) list"
  req_project_idea :: string

datatype timer_callback = RestoreInputBorder

datatype effect =
    ConsoleLog string
  | ConsoleWarn string msg
  | ConsoleError string "msg option"
  | StorageSet string string
  | Fetch request
  | SetTimeout timer_callback nat

text \<open>
  Assigning to \<^verbatim>\<open>innerText\<close> replaces the children of an element by text nodes and line
  breaks: every LF, CR and CR LF of the string becomes one \<^verbatim>\<open><br>\<close>, the runs between them
  become text nodes. Reading \<^verbatim>\<open>innerText\<close> gives the text as rendered. The program reads
  it back in one place, the \<^verbatim>\<open>+=\<close> of \<^verbatim>\<open>appendCode\<close>.
\<close>

datatype dom_node = TextNode string | BrNode

definition text_run :: "string \<Rightarrow> dom_node list" where
  "text_run r = (if r = [] then [] else [TextNode r])"

function nodes_from :: "string \<Rightarrow> string \<Rightarrow> dom_node list" where
  "nodes_from r [] = text_run r"
| "nodes_from r (c # cs) =
     (if c = CHR 0x0A then text_run r @ BrNode # nodes_from [] cs
      else if c = CHR 0x0D
      then text_run r @ BrNode
           # nodes_from [] (case cs of [] \<Rightarrow> [] | d # ds \<Rightarrow> if d = CHR 0x0A then ds else cs)
      else nodes_from (r @ [c]) cs)"
  by pat_completeness auto
termination
  by (relation "measure (\<lambda>(r, cs). length cs)") (auto split: list.splits)

definition inner_text_nodes :: "string \<Rightarrow> dom_node list" where
  "inner_text_nodes txt = nodes_from [] txt"

text \<open>
  The rendered text of an element that is displayed and keeps white space as it is
  (a \<^verbatim>\<open>pre\<close>): the text nodes as they are, a line feed for each \<^verbatim>\<open><br>\<close>.
\<close>

definition preformatted :: "dom_node list \<Rightarrow> string" where
  "preformatted ns = concat (map (\<lambda>n. case n of TextNode x \<Rightarrow> x | BrNode \<Rightarrow> [CHR 0x0A]) ns)"

record engine =
  state_status :: string
  state_idea :: string
  state_sessionId :: "string option"
  isPremium :: bool
  searchCount :: int
  dom_elems :: dom_elements
  localStorage :: "string \<rightharpoonup> string"
  read_preview :: "dom_node list \<Rightarrow> string"
  trace :: "effect list"

text \<open>
  \<open>state_status\<close>, \<open>state_idea\<close> and \<open>state_sessionId\<close> are \<^verbatim>\<open>this.state\<close>. \<open>searchCount\<close> is
  \<^verbatim>\<open>this.searchCount\<close>, the number the constructor parsed from \<^verbatim>\<open>localStorage\<close>, taken as an
  integer: the program itself only ever stores 1, 2 or 3 there. A stored value that
  parses to \<^verbatim>\<open>NaN\<close>, or to a number of size \<open>2^53\<close> and more (where \<^verbatim>\<open>++\<close> no longer adds 1), is
  outside the model, and the properties of the count are stated for 0, 1 and 2 and for
  the counts from 3 on, where the program only compares. \<open>read_preview\<close> is what reading
  \<^verbatim>\<open>codePreview.innerText\<close> returns for the nodes the element holds, which is decided by
  the page's style sheet. \<open>trace\<close> collects the effects.
\<close>

datatype js_error = TypeError

text \<open>
  A method either returns (\<open>Inr\<close>, the state it leaves) or throws (\<open>Inl\<close>, the error and
  the state at the throw: what it had mutated stays mutated).
\<close>

type_synonym result = "(js_error \<times> engine) + engine"

definition andThen :: "result \<Rightarrow> (engine \<Rightarrow> result) \<Rightarrow> result" where
  "andThen r f = (case r of Inl e \<Rightarrow> Inl e | Inr s \<Rightarrow> f s)"

definition state_of :: "result \<Rightarrow> engine" where
  "state_of r = (case r of Inl (e, s) \<Rightarrow> s | Inr s \<Rightarrow> s)"

definition API_URL :: string where
  "API_URL = ''http://localhost:8000/api/v1''"

subsection \<open>JavaScript primitives\<close>

text \<open>\<^verbatim>\<open>classList.add\<close> and \<^verbatim>\<open>classList.remove\<close> on a token set.\<close>

definition classList_add :: "string \<Rightarrow> string list \<Rightarrow> string list" where
  "classList_add c cs = (if c \<in> set cs then cs else cs @ [c])"

definition classList_remove :: "string \<Rightarrow> string list \<Rightarrow> string list" where
  "classList_remove c cs = removeAll c cs"

text \<open>\<^verbatim>\<open>if (x) f(x)\<close> for an optional string: absent and empty are both falsy.\<close>

definition when_text :: "string option \<Rightarrow> (string \<Rightarrow> engine \<Rightarrow> engine) \<Rightarrow> engine \<Rightarrow> engine" where
  "when_text x f s = (case x of None \<Rightarrow> s | Some t \<Rightarrow> if t = [] then s else f t s)"

text \<open>\<^verbatim>\<open>x || d\<close> for an optional string and for an optional number.\<close>

definition text_or :: "string option \<Rightarrow> string \<Rightarrow> string" where
  "text_or x d = (case x of None \<Rightarrow> d | Some t \<Rightarrow> if t = [] then d else t)"

definition num_or :: "int option \<Rightarrow> int \<Rightarrow> int" where
  "num_or x d = (case x of None \<Rightarrow> d | Some n \<Rightarrow> if n = 0 then d else n)"

text \<open>
  \<^verbatim>\<open>Number.prototype.toString\<close> on an integer: its decimal numeral. (This is what JavaScript
  prints for the integers below \<open>2^53\<close> in size; the numbers of the program are taken in
  that range, where \<^verbatim>\<open>++\<close> is also exact.)
\<close>

definition digit_char :: "nat \<Rightarrow> char" where
  "digit_char d = char_of (of_char (CHR ''0'') + d)"

fun nat_toString :: "nat \<Rightarrow> string" where
  "nat_toString n = (if n < 10 then [digit_char n] else nat_toString (n div 10) @ [digit_char (n mod 10)])"

declare nat_toString.simps [simp del]

definition toString :: "int \<Rightarrow> string" where
  "toString i = (if i < 0 then CHR ''-'' # nat_toString (nat (- i)) else nat_toString (nat i))"

text \<open>
  \<^verbatim>\<open>String.prototype.trim\<close>: strips the white space and line terminators of ECMAScript
  from both ends. In UTF-8 these are the six ASCII ones and the byte sequences of
  U+00A0, U+1680, U+2000 to U+200A, U+2028, U+2029, U+202F, U+205F, U+3000 and U+FEFF.
\<close>

definition ws_tokens :: "string list" where
  "ws_tokens =
     [[CHR 0x09], [CHR 0x0A], [CHR 0x0B], [CHR 0x0C], [CHR 0x0D], [CHR 0x20],
      [CHR 0xC2, CHR 0xA0], [CHR 0xE1, CHR 0x9A, CHR 0x80],
      [CHR 0xE2, CHR 0x80, CHR 0x80], [CHR 0xE2, CHR 0x80, CHR 0x81], [CHR 0xE2, CHR 0x80, CHR 0x82],
      [CHR 0xE2, CHR 0x80, CHR 0x83], [CHR 0xE2, CHR 0x80, CHR 0x84], [CHR 0xE2, CHR 0x80, CHR 0x85],
      [CHR 0xE2, CHR 0x80, CHR 0x86], [CHR 0xE2, CHR 0x80, CHR 0x87], [CHR 0xE2, CHR 0x80, CHR 0x88],
      [CHR 0xE2, CHR 0x80, CHR 0x89], [CHR 0xE2, CHR 0x80, CHR 0x8A],
      [CHR 0xE2, CHR 0x80, CHR 0xA8], [CHR 0xE2, CHR 0x80, CHR 0xA9], [CHR 0xE2, CHR 0x80, CHR 0xAF],
      [CHR 0xE2, CHR 0x81, CHR 0x9F], [CHR 0xE3, CHR 0x80, CHR 0x80], [CHR 0xEF, CHR 0xBB, CHR 0xBF]]"

text \<open>The length of the first token that \<open>s\<close> starts with, 0 when it starts with none.\<close>

definition ws_prefix :: "string list \<Rightarrow> string \<Rightarrow> nat" where
  "ws_prefix toks s =
     (case filter (\<lambda>t. t \<noteq> [] \<and> take (length t) s = t) toks of
        [] \<Rightarrow> 0 | t # _ \<Rightarrow> length t)"

function trimStart_with :: "string list \<Rightarrow> string \<Rightarrow> string" where
  "trimStart_with toks s =
     (if ws_prefix toks s = 0 \<or> s = [] then s else trimStart_with toks (drop (ws_prefix toks s) s))"
  by pat_completeness auto
termination
  by (relation "measure (\<lambda>(toks, s). length s)") auto

declare trimStart_with.simps [simp del]

definition js_trim :: "string \<Rightarrow> string" where
  "js_trim s = rev (trimStart_with (map rev ws_tokens) (rev (trimStart_with ws_tokens s)))"

subsection \<open>UI helpers\<close>

text \<open>
  A method that touches several elements is one update of \<open>dom_elems\<close> by a composition
  of field updates; a composition \<open>f \<circ> g\<close> applies \<open>g\<close> first, so the statements of the
  source read from right to left. The card a method is called with is named by a
  \<open>card_ref\<close>, since the method also walks over all three cards.
\<close>

datatype card_ref = CardSearch | CardAnalyst | CardDev

definition card_get :: "card_ref \<Rightarrow> dom_elements \<Rightarrow> element option" where
  "card_get r d = (case r of CardSearch \<Rightarrow> cardSearch d | CardAnalyst \<Rightarrow> cardAnalyst d | CardDev \<Rightarrow> cardDev d)"

definition card_update :: "card_ref \<Rightarrow> (element option \<Rightarrow> element option) \<Rightarrow> dom_elements \<Rightarrow> dom_elements" where
  "card_update r f d =
     (case r of CardSearch \<Rightarrow> cardSearch_update f d
              | CardAnalyst \<Rightarrow> cardAnalyst_update f d
              | CardDev \<Rightarrow> cardDev_update f d)"

text \<open>The \<^verbatim>\<open>forEach\<close> over the three cards that \<^verbatim>\<open>setActiveCard\<close> and \<^verbatim>\<open>completeCard\<close> share.\<close>

definition all_cards_opacity :: "string \<Rightarrow> dom_elements \<Rightarrow> dom_elements" where
  "all_cards_opacity v d =
     cardDev_update (map_option (opacity_update (\<lambda>_. v)))
       (cardAnalyst_update (map_option (opacity_update (\<lambda>_. v)))
         (cardSearch_update (map_option (opacity_update (\<lambda>_. v))) d))"

definition updateIsland :: "string \<Rightarrow> string \<Rightarrow> bool \<Rightarrow> engine \<Rightarrow> result" where
  "updateIsland mode txt showSpinner s =
     (case island (dom_elems s) of
        None \<Rightarrow> Inl (TypeError, s)
      | Some _ \<Rightarrow>
          let s1 = dom_elems_update
                     (island_update (map_option (classList_update (\<lambda>_. [''dynamic-island'', mode])))) s
          in (case islandText (dom_elems s1) of
                None \<Rightarrow> Inl (TypeError, s1)
              | Some _ \<Rightarrow>
                  let s2 = dom_elems_update
                             (islandText_update (map_option (innerText_update (\<lambda>_. txt)))) s1
                  in Inr (if showSpinner
                          then dom_elems_update
                                 (islandDot_update (map_option (classList_update (classList_add ''hidden'')))
                                  \<circ> islandSpinner_update (map_option (classList_update (classList_remove ''hidden'')))) s2
                          else dom_elems_update
                                 (islandDot_update (map_option (classList_update (classList_remove ''hidden'')))
                                  \<circ> islandSpinner_update (map_option (classList_update (classList_add ''hidden'')))) s2)))"

definition setActiveCard :: "card_ref \<Rightarrow> engine \<Rightarrow> engine" where
  "setActiveCard cardEl s =
     (case card_get cardEl (dom_elems s) of
        None \<Rightarrow> s
      | Some _ \<Rightarrow>
          dom_elems_update
            (card_update cardEl
               (map_option (classList_update (classList_add ''active-card'') \<circ> opacity_update (\<lambda>_. ''1'')))
             \<circ> all_cards_opacity ''0.4'') s)"

definition completeCard :: "card_ref \<Rightarrow> engine \<Rightarrow> engine" where
  "completeCard cardEl s =
     (case card_get cardEl (dom_elems s) of
        None \<Rightarrow> s
      | Some _ \<Rightarrow>
          dom_elems_update
            (all_cards_opacity ''1''
             \<circ> card_update cardEl
                 (map_option (borderColor_update (\<lambda>_. ''rgba(255,255,255,0.1)'')
                              \<circ> classList_update (classList_remove ''active-card'')))) s)"

definition new_child :: "string \<Rightarrow> string \<Rightarrow> string \<Rightarrow> string \<Rightarrow> child" where
  "new_child tg cls txt mb =
     \<lparr>child_tagName = tg, child_className = cls, child_innerText = txt, child_marginBottom = mb\<rparr>"

definition appendChild :: "child \<Rightarrow> element \<Rightarrow> element" where
  "appendChild c e = e\<lparr>children := children e @ [c]\<rparr>"

text \<open>The scroll position that \<^verbatim>\<open>logToTerminal\<close> also sets is layout and is not modelled.\<close>

definition logToTerminal :: "string \<Rightarrow> engine \<Rightarrow> engine" where
  "logToTerminal txt s =
     dom_elems_update (terminal_update (map_option (appendChild (new_child ''div'' ''log-entry'' txt [])))) s"

definition addTag :: "string \<Rightarrow> engine \<Rightarrow> engine" where
  "addTag txt s =
     dom_elems_update (tags_update (map_option (appendChild (new_child ''span'' ''tag'' txt [])))) s"

text \<open>The prefix of a file entry: U+1F4C4 and a space.\<close>

definition file_icon :: string where
  "file_icon = [CHR 0xF0, CHR 0x9F, CHR 0x93, CHR 0x84, CHR 0x20]"

definition addFile :: "string \<Rightarrow> engine \<Rightarrow> engine" where
  "addFile filename s =
     dom_elems_update
       (fileTree_update (map_option (appendChild (new_child ''div'' [] (file_icon @ filename) ''4px'')))) s"

text \<open>\<^verbatim>\<open>innerText += text\<close>: the text read back from the element, then the new text, assigned.\<close>

definition appendCode :: "string \<Rightarrow> engine \<Rightarrow> engine" where
  "appendCode txt s =
     dom_elems_update
       (codePreview_update
          (map_option (\<lambda>e. e\<lparr>innerText := read_preview s (inner_text_nodes (innerText e)) @ txt\<rparr>))) s"

definition console :: "effect \<Rightarrow> engine \<Rightarrow> engine" where
  "console e s = s\<lparr>trace := trace s @ [e]\<rparr>"

definition shakeInput :: "engine \<Rightarrow> result" where
  "shakeInput s =
     (case input (dom_elems s) of
        None \<Rightarrow> Inl (TypeError, s)
      | Some _ \<Rightarrow>
          Inr ((dom_elems_update
                  (input_update (map_option (parent_borderColor_update (\<lambda>_. ''var(--accent-red)'')))) s)
               \<lparr>trace := trace s @ [SetTimeout RestoreInputBorder 500]\<rparr>))"

text \<open>The callback that \<^verbatim>\<open>shakeInput\<close> schedules.\<close>

definition run_timer :: "timer_callback \<Rightarrow> engine \<Rightarrow> engine" where
  "run_timer cb s =
     (case cb of RestoreInputBorder \<Rightarrow>
        dom_elems_update
          (input_update (map_option (parent_borderColor_update (\<lambda>_. ''rgba(255,255,255,0.1)'')))) s)"

definition resetUI :: "engine \<Rightarrow> engine" where
  "resetUI s =
     dom_elems_update
       (btnExport_update (map_option (classList_update (classList_add ''hidden'')))
        \<circ> gauges_update (map_option (classList_update (classList_add ''opacity-0'')))
        \<circ> verdict_update (map_option (classList_update (classList_add ''hidden'')))
        \<circ> codePreview_update (map_option (innerText_update (\<lambda>_. [])))
        \<circ> fileTree_update (map_option (children_update (\<lambda>_. [new_child ''div'' ''tree-root'' ''/root'' []])))
        \<circ> tags_update (map_option (children_update (\<lambda>_. [])))
        \<circ> terminal_update (map_option (children_update (\<lambda>_. [])))) s"

subsection \<open>The update router: \<^verbatim>\<open>handleBackendMessage\<close>\<close>

text \<open>
  The \<^verbatim>\<open>switch\<close> on \<^verbatim>\<open>msg.agent\<close>, case by case in the source's order. Only the metrics
  block of \<^verbatim>\<open>ANALYST\<close> (which reads \<^verbatim>\<open>this.dom.gauges\<close> and \<^verbatim>\<open>this.dom.verdict\<close> unguarded)
  and \<^verbatim>\<open>updateIsland\<close> can throw.
\<close>

definition set_gauge :: "int \<Rightarrow> element \<Rightarrow> element" where
  "set_gauge v e =
     (let e1 = e\<lparr>width := toString v @ ''%''\<rparr>
      in if v > 70 then e1\<lparr>classList := classList_add ''intense'' (classList e1)\<rparr> else e1)"

definition analyst_metrics :: "msg_metrics_obj \<Rightarrow> engine \<Rightarrow> result" where
  "analyst_metrics mt s =
     (case gauges (dom_elems s) of
        None \<Rightarrow> Inl (TypeError, s)
      | Some _ \<Rightarrow>
          let s1 = dom_elems_update
                     (gauges_update (map_option (classList_update (classList_remove ''opacity-0'')))) s;
              heat = num_or (metrics_heat mt) 0;
              roi = num_or (metrics_roi mt) 0;
              s2 = dom_elems_update (progressHeat_update (map_option (set_gauge heat))) s1;
              s3 = dom_elems_update (progressROI_update (map_option (set_gauge roi))) s2;
              s4 = dom_elems_update
                     (valHeat_update (map_option (innerText_update (\<lambda>_. toString heat @ ''%'')))) s3;
              s5 = dom_elems_update
                     (valROI_update (map_option (innerText_update (\<lambda>_. toString roi @ ''%'')))) s4
          in (case metrics_verdict mt of
                None \<Rightarrow> Inr s5
              | Some v \<Rightarrow>
                  if v = [] then Inr s5
                  else (case verdict (dom_elems s5) of
                          None \<Rightarrow> Inl (TypeError, s5)
                        | Some _ \<Rightarrow>
                            Inr (dom_elems_update
                                   (verdict_update
                                      (map_option (classList_update (classList_remove ''hidden'')
                                                   \<circ> innerText_update (\<lambda>_. v)))) s5))))"

definition handleBackendMessage :: "msg \<Rightarrow> engine \<Rightarrow> result" where
  "handleBackendMessage m s =
     (if msg_agent m = Some ''SEARCH'' then
        let s1 = setActiveCard CardSearch s;
            s2 = when_text (msg_content m) (\<lambda>c. logToTerminal (''> '' @ c)) s1
        in Inr (case msg_data m of
                  None \<Rightarrow> s2
                | Some d \<Rightarrow> when_text (data_tag d) addTag s2)
      else if msg_agent m = Some ''ANALYST'' then
        let s1 = completeCard CardSearch s;
            s2 = setActiveCard CardAnalyst s1
        in andThen (case msg_metrics m of None \<Rightarrow> Inr s2 | Some mt \<Rightarrow> analyst_metrics mt s2)
             (\<lambda>s3. Inr (when_text (msg_content m) (\<lambda>c. logToTerminal (''[ANALYST] '' @ c)) s3))
      else if msg_agent m = Some ''DEV'' then
        let s1 = completeCard CardAnalyst s;
            s2 = setActiveCard CardDev s1;
            s3 = when_text (msg_file m) addFile s2
        in Inr (when_text (msg_code m) appendCode s3)
      else if msg_agent m = Some ''COMPLETE'' then
        updateIsland ''success'' ''SEQUENCE COMPLETE'' False (completeCard CardDev s)
      else if msg_agent m = Some ''ERROR'' then
        andThen (updateIsland ''idle'' ''ERROR OCCURRED'' False
                   (logToTerminal (''[ERROR] '' @ text_or (msg_content m) ''Unknown error occurred'') s))
          (\<lambda>s1. Inr (console (ConsoleError ''[BACKEND ERROR]'' (Some m))
                       (dom_elems_update
                          (islandDot_update (map_option (background_update (\<lambda>_. ''#ff2a6d'')))) s1)))
      else Inr (console (ConsoleWarn ''[UNKNOWN AGENT]'' m) s))"

subsection \<open>The update stream: the socket's handlers in \<^verbatim>\<open>connectWebSocket\<close>\<close>

definition socket_onopen :: "engine \<Rightarrow> result" where
  "socket_onopen s =
     Inr (logToTerminal ''[SYSTEM] Secure Uplink Established.'' (console (ConsoleLog ''[SOCKET] Connected.'') s))"

text \<open>\<^verbatim>\<open>onmessage\<close> parses the frame and hands the object to the router.\<close>

definition socket_onmessage :: "msg \<Rightarrow> engine \<Rightarrow> result" where
  "socket_onmessage m s = handleBackendMessage m s"

definition socket_onerror :: "engine \<Rightarrow> result" where
  "socket_onerror s =
     Inr (logToTerminal ''[ERROR] Signal Lost.'' (console (ConsoleError ''[SOCKET] Error:'' None) s))"

definition socket_onclose :: "engine \<Rightarrow> result" where
  "socket_onclose s =
     andThen (updateIsland ''success'' ''SEQUENCE COMPLETE'' False (console (ConsoleLog ''[SOCKET] Closed.'') s))
       (\<lambda>s1. Inr (dom_elems_update
                    (btnExport_update
                       (map_option (disabled_update (\<lambda>_. False)
                                    \<circ> classList_update (classList_remove ''hidden'')))) s1))"

text \<open>
  The browser calls one handler per frame; a handler that throws is reported and
  the next frame is handled on the state it left.
\<close>

fun process :: "msg list \<Rightarrow> engine \<Rightarrow> engine" where
  "process [] s = s"
| "process (m # ms) s = process ms (state_of (socket_onmessage m s))"

subsection \<open>Starting a session: \<^verbatim>\<open>initiateRealProtocol\<close>\<close>

text \<open>
  The method up to the point where it has issued the \<^verbatim>\<open>fetch\<close> to \<^verbatim>\<open>/start\<close> and awaits
  the answer. The body of the request is kept as the idea it carries.
\<close>

definition storage_setItem :: "string \<Rightarrow> string \<Rightarrow> engine \<Rightarrow> engine" where
  "storage_setItem k v s = s\<lparr>localStorage := (localStorage s)(k \<mapsto> v), trace := trace s @ [StorageSet k v]\<rparr>"

definition start_request :: "string \<Rightarrow> engine \<Rightarrow> request" where
  "start_request idea s =
     (let licenseKey = text_or (localStorage s ''license_key'') []
      in \<lparr>req_url = API_URL @ ''/start'',
          req_method = ''POST'',
          req_headers = (''Content-Type'', ''application/json'')
                        # (if licenseKey = [] then [] else [(''License-Key'', licenseKey)]),
          req_project_idea = idea\<rparr>)"

definition initiateRealProtocol :: "engine \<Rightarrow> result" where
  "initiateRealProtocol s =
     (case input (dom_elems s) of
        None \<Rightarrow> Inl (TypeError, s)
      | Some inp \<Rightarrow>
          let idea = js_trim (input_value inp)
          in if idea = [] then shakeInput s
             else if \<not> isPremium s \<and> searchCount s \<ge> 3 then
               (case paywallModal (dom_elems s) of
                  None \<Rightarrow> Inl (TypeError, s)
                | Some _ \<Rightarrow>
                    Inr (dom_elems_update
                           (paywallModal_update (map_option (classList_update (classList_remove ''hidden'')))) s))
             else
               let s1 = console (ConsoleLog (''[ACTION] Initiating sequence for: '' @ idea)) s;
                   s2 = (if \<not> isPremium s1
                         then (let s' = s1\<lparr>searchCount := searchCount s1 + 1\<rparr>
                               in storage_setItem ''wyronix_search_count'' (toString (searchCount s')) s')
                         else s1);
                   s3 = s2\<lparr>state_idea := idea, state_status := ''CONNECTING''\<rparr>
               in andThen (updateIsland ''active'' ''ESTABLISHING UPLINK...'' True s3)
                    (\<lambda>s4. let s5 = resetUI s4
                           in Inr (s5\<lparr>trace := trace s5 @ [Fetch (start_request idea s5)]\<rparr>)))"

section \<open>Notions the properties are stated with\<close>

definition has_class :: "string \<Rightarrow> element option \<Rightarrow> bool" where
  "has_class c eo = (case eo of None \<Rightarrow> False | Some e \<Rightarrow> c \<in> set (classList e))"

text \<open>A stage card is active when it carries the class \<^verbatim>\<open>active-card\<close>.\<close>

definition is_active :: "card_ref \<Rightarrow> engine \<Rightarrow> bool" where
  "is_active r s = has_class ''active-card'' (card_get r (dom_elems s))"

definition active_cards :: "engine \<Rightarrow> card_ref list" where
  "active_cards s = filter (\<lambda>r. is_active r s) [CardSearch, CardAnalyst, CardDev]"

text \<open>
  What \<^verbatim>\<open>completeCard\<close> leaves on a card: the completed border and no \<^verbatim>\<open>active-card\<close>.
\<close>

definition is_completed :: "card_ref \<Rightarrow> engine \<Rightarrow> bool" where
  "is_completed r s =
     (case card_get r (dom_elems s) of
        None \<Rightarrow> False
      | Some e \<Rightarrow> borderColor e = ''rgba(255,255,255,0.1)'' \<and> ''active-card'' \<notin> set (classList e))"

definition stage_tag :: "card_ref \<Rightarrow> string" where
  "stage_tag r = (case r of CardSearch \<Rightarrow> ''SEARCH'' | CardAnalyst \<Rightarrow> ''ANALYST'' | CardDev \<Rightarrow> ''DEV'')"

text \<open>The position in the pipeline of an event that activates a stage.\<close>

definition stage_rank :: "msg \<Rightarrow> nat option" where
  "stage_rank m =
     (if msg_agent m = Some ''SEARCH'' then Some 0
      else if msg_agent m = Some ''ANALYST'' then Some 1
      else if msg_agent m = Some ''DEV'' then Some 2
      else None)"

text \<open>
  Pipeline order: among the events that activate a stage, each one names the stage of
  the one before it or the next stage. \<open>prev\<close> is the stage of the last such event.
\<close>

fun pipeline_from :: "nat option \<Rightarrow> msg list \<Rightarrow> bool" where
  "pipeline_from prev [] = True"
| "pipeline_from prev (m # ms) =
     (case stage_rank m of
        None \<Rightarrow> pipeline_from prev ms
      | Some r \<Rightarrow>
          (case prev of None \<Rightarrow> True | Some p \<Rightarrow> p \<le> r \<and> r \<le> Suc p)
          \<and> pipeline_from (Some r) ms)"

definition pipeline_order :: "msg list \<Rightarrow> bool" where
  "pipeline_order ms = pipeline_from None ms"

text \<open>The gauge value an \<^verbatim>\<open>ANALYST\<close> event sets, if it sets one.\<close>

definition heat_of :: "msg \<Rightarrow> int option" where
  "heat_of m =
     (if msg_agent m = Some ''ANALYST''
      then map_option (\<lambda>mt. num_or (metrics_heat mt) 0) (msg_metrics m) else None)"

definition roi_of :: "msg \<Rightarrow> int option" where
  "roi_of m =
     (if msg_agent m = Some ''ANALYST''
      then map_option (\<lambda>mt. num_or (metrics_roi mt) 0) (msg_metrics m) else None)"

text \<open>
  The code preview, if the page has one: the string last assigned to it, and the text
  that reading it gives.
\<close>

definition stored_preview :: "engine \<Rightarrow> string option" where
  "stored_preview s = map_option innerText (codePreview (dom_elems s))"

definition preview_text :: "engine \<Rightarrow> string option" where
  "preview_text s =
     map_option (\<lambda>e. read_preview s (inner_text_nodes (innerText e))) (codePreview (dom_elems s))"

text \<open>The invariant of the stage cards: whichever card is active is the one of the last stage event.\<close>

definition card_rank :: "card_ref \<Rightarrow> nat" where
  "card_rank r = (case r of CardSearch \<Rightarrow> 0 | CardAnalyst \<Rightarrow> 1 | CardDev \<Rightarrow> 2)"

definition stage_inv :: "nat option \<Rightarrow> engine \<Rightarrow> bool" where
  "stage_inv prev s = (\<forall>r. is_active r s \<longrightarrow> prev = Some (card_rank r))"

text \<open>Which of the elements of the page exist.\<close>

definition presence :: "dom_elements \<Rightarrow> bool list" where
  "presence d =
     map (\<lambda>f. f d = None)
       [input, island, islandText, islandSpinner, islandDot, cardSearch, cardAnalyst, cardDev,
        terminal, tags, gauges, verdict, fileTree, codePreview, btnExport, paywallModal,
        progressHeat, progressROI, valHeat, valROI]"

subsection \<open>A page and some events to run the program on\<close>

definition blank_element :: element where
  "blank_element =
     \<lparr>classList = [], innerText = [], children = [], input_value = [], disabled = False,
      opacity = [], borderColor = [], width = [], background = [], parent_borderColor = []\<rparr>"

text \<open>
  A page on which every element the program looks up exists, with the export button
  hidden and disabled and the paywall hidden.
\<close>

definition full_page :: dom_elements where
  "full_page =
     \<lparr>input = Some blank_element, island = Some blank_element, islandText = Some blank_element,
      islandSpinner = Some blank_element, islandDot = Some blank_element,
      cardSearch = Some blank_element, cardAnalyst = Some blank_element, cardDev = Some blank_element,
      terminal = Some blank_element, tags = Some blank_element, gauges = Some blank_element,
      verdict = Some blank_element, fileTree = Some blank_element, codePreview = Some blank_element,
      btnExport = Some (blank_element\<lparr>classList := [''hidden''], disabled := True\<rparr>),
      paywallModal = Some (blank_element\<lparr>classList := [''hidden'']\<rparr>),
      progressHeat = Some blank_element, progressROI = Some blank_element,
      valHeat = Some blank_element, valROI = Some blank_element\<rparr>"

text \<open>
  The engine as the constructor leaves it for a free user with nothing stored, after
  \<^verbatim>\<open>resetUI\<close>, on a page whose code preview is a \<^verbatim>\<open>pre\<close>.
\<close>

definition fresh_engine :: engine where
  "fresh_engine =
     resetUI \<lparr>state_status = ''STANDBY'', state_idea = [], state_sessionId = None,
              isPremium = False, searchCount = 0, dom_elems = full_page,
              localStorage = Map.empty, read_preview = preformatted, trace = []\<rparr>"

definition event :: "string \<Rightarrow> msg" where
  "event a = \<lparr>msg_agent = Some a, msg_content = None, msg_data = None, msg_metrics = None,
              msg_file = None, msg_code = None\<rparr>"

definition heat_event :: "int \<Rightarrow> msg" where
  "heat_event h =
     (event ''ANALYST'')\<lparr>msg_metrics := Some \<lparr>metrics_heat = Some h, metrics_roi = None, metrics_verdict = None\<rparr>\<rparr>"

definition code_event :: "string \<Rightarrow> msg" where
  "code_event c = (event ''DEV'')\<lparr>msg_code := Some c\<rparr>"

definition with_input :: "string \<Rightarrow> engine \<Rightarrow> engine" where
  "with_input v s = dom_elems_update (input_update (map_option (input_value_update (\<lambda>_. v)))) s"

section \<open>Lemmas: what each method does to the page\<close>

lemmas helper_defs = setActiveCard_def completeCard_def logToTerminal_def addTag_def addFile_def
  appendCode_def console_def all_cards_opacity_def card_update_def card_get_def when_text_def

lemma card_get_setActiveCard:
  "card_get r (dom_elems (setActiveCard c s)) =
     (if card_get c (dom_elems s) = None then card_get r (dom_elems s)
      else if r = c
      then map_option (\<lambda>e. e\<lparr>opacity := ''1'', classList := classList_add ''active-card'' (classList e)\<rparr>)
             (card_get r (dom_elems s))
      else map_option (\<lambda>e. e\<lparr>opacity := ''0.4''\<rparr>) (card_get r (dom_elems s)))"
  by (cases r; cases c) (auto simp: helper_defs split: option.splits)

lemma card_get_completeCard:
  "card_get r (dom_elems (completeCard c s)) =
     (if card_get c (dom_elems s) = None then card_get r (dom_elems s)
      else if r = c
      then map_option (\<lambda>e. e\<lparr>opacity := ''1'', borderColor := ''rgba(255,255,255,0.1)'',
                              classList := classList_remove ''active-card'' (classList e)\<rparr>)
             (card_get r (dom_elems s))
      else map_option (\<lambda>e. e\<lparr>opacity := ''1''\<rparr>) (card_get r (dom_elems s)))"
  by (cases r; cases c) (auto simp: helper_defs split: option.splits)

lemma card_get_frame [simp]:
  "card_get r (dom_elems (logToTerminal t s)) = card_get r (dom_elems s)"
  "card_get r (dom_elems (addTag t s)) = card_get r (dom_elems s)"
  "card_get r (dom_elems (addFile t s)) = card_get r (dom_elems s)"
  "card_get r (dom_elems (appendCode t s)) = card_get r (dom_elems s)"
  "card_get r (dom_elems (console e s)) = card_get r (dom_elems s)"
  by (cases r; simp add: helper_defs)+

lemma card_get_when_text [simp]:
  "(\<And>t s. card_get r (dom_elems (f t s)) = card_get r (dom_elems s)) \<Longrightarrow>
   card_get r (dom_elems (when_text x f s)) = card_get r (dom_elems s)"
  by (simp add: when_text_def split: option.splits)

lemma card_get_updateIsland [simp]:
  "card_get r (dom_elems (state_of (updateIsland mode t sp s))) = card_get r (dom_elems s)"
  by (cases r) (auto simp: updateIsland_def state_of_def card_get_def Let_def split: option.splits)

lemma card_get_analyst_metrics [simp]:
  "card_get r (dom_elems (state_of (analyst_metrics mt s))) = card_get r (dom_elems s)"
  by (cases r) (auto simp: analyst_metrics_def state_of_def card_get_def Let_def split: option.splits)

lemma state_of_simps [simp]:
  "state_of (Inr s) = s" "state_of (Inl (e, s)) = s"
  by (simp_all add: state_of_def)

lemma state_of_andThen_frame:
  "(\<And>s'. P (state_of (f s')) = P s') \<Longrightarrow> P (state_of (andThen r f)) = P (state_of r)"
  by (cases r) (auto simp: andThen_def state_of_def)

subsection \<open>The router, one tag at a time\<close>

lemma handle_SEARCH:
  "msg_agent m = Some ''SEARCH'' \<Longrightarrow>
   handleBackendMessage m s =
     Inr (case msg_data m of
            None \<Rightarrow> when_text (msg_content m) (\<lambda>c. logToTerminal (''> '' @ c)) (setActiveCard CardSearch s)
          | Some d \<Rightarrow> when_text (data_tag d) addTag
                       (when_text (msg_content m) (\<lambda>c. logToTerminal (''> '' @ c)) (setActiveCard CardSearch s)))"
  by (simp add: handleBackendMessage_def Let_def split: option.splits)

lemma handle_ANALYST:
  "msg_agent m = Some ''ANALYST'' \<Longrightarrow>
   handleBackendMessage m s =
     andThen (case msg_metrics m of
                None \<Rightarrow> Inr (setActiveCard CardAnalyst (completeCard CardSearch s))
              | Some mt \<Rightarrow> analyst_metrics mt (setActiveCard CardAnalyst (completeCard CardSearch s)))
       (\<lambda>s3. Inr (when_text (msg_content m) (\<lambda>c. logToTerminal (''[ANALYST] '' @ c)) s3))"
  by (simp add: handleBackendMessage_def Let_def split: option.splits)

lemma handle_DEV:
  "msg_agent m = Some ''DEV'' \<Longrightarrow>
   handleBackendMessage m s =
     Inr (when_text (msg_code m) appendCode
            (when_text (msg_file m) addFile (setActiveCard CardDev (completeCard CardAnalyst s))))"
  by (simp add: handleBackendMessage_def Let_def split: option.splits)

lemma handle_COMPLETE:
  "msg_agent m = Some ''COMPLETE'' \<Longrightarrow>
   handleBackendMessage m s = updateIsland ''success'' ''SEQUENCE COMPLETE'' False (completeCard CardDev s)"
  by (simp add: handleBackendMessage_def Let_def split: option.splits)

lemma handle_ERROR:
  "msg_agent m = Some ''ERROR'' \<Longrightarrow>
   handleBackendMessage m s =
     andThen (updateIsland ''idle'' ''ERROR OCCURRED'' False
                (logToTerminal (''[ERROR] '' @ text_or (msg_content m) ''Unknown error occurred'') s))
       (\<lambda>s1. Inr (console (ConsoleError ''[BACKEND ERROR]'' (Some m))
                    (dom_elems_update
                       (islandDot_update (map_option (background_update (\<lambda>_. ''#ff2a6d'')))) s1)))"
  by (simp add: handleBackendMessage_def Let_def split: option.splits)

lemma handle_other:
  "msg_agent m \<noteq> Some ''SEARCH'' \<Longrightarrow> msg_agent m \<noteq> Some ''ANALYST'' \<Longrightarrow>
   msg_agent m \<noteq> Some ''DEV'' \<Longrightarrow> msg_agent m \<noteq> Some ''COMPLETE'' \<Longrightarrow>
   msg_agent m \<noteq> Some ''ERROR'' \<Longrightarrow>
   handleBackendMessage m s = Inr (console (ConsoleWarn ''[UNKNOWN AGENT]'' m) s)"
  by (simp add: handleBackendMessage_def)


lemma card_get_handle:
  "card_get r (dom_elems (state_of (handleBackendMessage m s))) =
     (if msg_agent m = Some ''SEARCH'' then card_get r (dom_elems (setActiveCard CardSearch s))
      else if msg_agent m = Some ''ANALYST''
      then card_get r (dom_elems (setActiveCard CardAnalyst (completeCard CardSearch s)))
      else if msg_agent m = Some ''DEV''
      then card_get r (dom_elems (setActiveCard CardDev (completeCard CardAnalyst s)))
      else if msg_agent m = Some ''COMPLETE'' then card_get r (dom_elems (completeCard CardDev s))
      else card_get r (dom_elems s))"
proof -
  let ?P = "\<lambda>s. card_get r (dom_elems s)"
  consider (search) "msg_agent m = Some ''SEARCH''" | (analyst) "msg_agent m = Some ''ANALYST''"
    | (dev) "msg_agent m = Some ''DEV''" | (complete) "msg_agent m = Some ''COMPLETE''"
    | (error) "msg_agent m = Some ''ERROR''"
    | (other) "msg_agent m \<noteq> Some ''SEARCH''" "msg_agent m \<noteq> Some ''ANALYST''"
        "msg_agent m \<noteq> Some ''DEV''" "msg_agent m \<noteq> Some ''COMPLETE''" "msg_agent m \<noteq> Some ''ERROR''"
    by blast
  then show ?thesis
  proof cases
    case search
    then show ?thesis by (simp add: handle_SEARCH split: option.splits)
  next
    case analyst
    have "?P (state_of (handleBackendMessage m s)) =
          ?P (state_of (case msg_metrics m of
                None \<Rightarrow> Inr (setActiveCard CardAnalyst (completeCard CardSearch s))
              | Some mt \<Rightarrow> analyst_metrics mt (setActiveCard CardAnalyst (completeCard CardSearch s))))"
      unfolding handle_ANALYST [OF analyst]
      by (rule state_of_andThen_frame) simp
    with analyst show ?thesis by (simp split: option.splits)
  next
    case dev
    then show ?thesis by (simp add: handle_DEV)
  next
    case complete
    then show ?thesis by (simp add: handle_COMPLETE)
  next
    case error
    have "?P (state_of (handleBackendMessage m s)) =
          ?P (state_of (updateIsland ''idle'' ''ERROR OCCURRED'' False
                (logToTerminal (''[ERROR] '' @ text_or (msg_content m) ''Unknown error occurred'') s)))"
      unfolding handle_ERROR [OF error]
      by (rule state_of_andThen_frame) (cases r; simp add: card_get_def console_def)
    with error show ?thesis by simp
  next
    case other
    then show ?thesis by (simp add: handle_other)
  qed
qed

subsection \<open>Active cards\<close>

lemma is_active_setActiveCard:
  "is_active r (setActiveCard c s) = (if r = c then card_get c (dom_elems s) \<noteq> None else is_active r s)"
  by (auto simp: is_active_def has_class_def card_get_setActiveCard classList_add_def split: option.splits)

lemma is_active_completeCard:
  "is_active r (completeCard c s) = (r \<noteq> c \<and> is_active r s)"
  by (auto simp: is_active_def has_class_def card_get_completeCard classList_remove_def split: option.splits)

lemma present_completeCard:
  "(card_get r (dom_elems (completeCard c s)) = None) = (card_get r (dom_elems s) = None)"
  by (simp add: card_get_completeCard)

lemma is_active_handle:
  "is_active r (state_of (handleBackendMessage m s)) =
     (case stage_rank m of
        Some k \<Rightarrow> if card_rank r = k then card_get r (dom_elems s) \<noteq> None
                  else if Suc (card_rank r) = k then False else is_active r s
      | None \<Rightarrow> if msg_agent m = Some ''COMPLETE'' \<and> r = CardDev then False else is_active r s)"
proof -
  have "is_active r (state_of (handleBackendMessage m s)) =
     (if msg_agent m = Some ''SEARCH'' then is_active r (setActiveCard CardSearch s)
      else if msg_agent m = Some ''ANALYST''
      then is_active r (setActiveCard CardAnalyst (completeCard CardSearch s))
      else if msg_agent m = Some ''DEV''
      then is_active r (setActiveCard CardDev (completeCard CardAnalyst s))
      else if msg_agent m = Some ''COMPLETE'' then is_active r (completeCard CardDev s)
      else is_active r s)"
    unfolding is_active_def card_get_handle by simp
  then show ?thesis
    by (cases r)
       (auto simp: is_active_setActiveCard is_active_completeCard present_completeCard
                   stage_rank_def card_rank_def)
qed

lemma stage_inv_step:
  assumes "stage_inv prev s"
    and "case stage_rank m of None \<Rightarrow> True
         | Some k \<Rightarrow> (case prev of None \<Rightarrow> True | Some p \<Rightarrow> p \<le> k \<and> k \<le> Suc p)"
  shows "stage_inv (case stage_rank m of None \<Rightarrow> prev | Some k \<Rightarrow> Some k)
           (state_of (handleBackendMessage m s))"
  using assms unfolding stage_inv_def is_active_handle
  by (auto split: option.splits if_splits)

lemma stage_inv_process:
  "pipeline_from prev ms \<Longrightarrow> stage_inv prev s \<Longrightarrow> \<exists>prev'. stage_inv prev' (process ms s)"
proof (induction ms arbitrary: prev s)
  case Nil
  then show ?case by auto
next
  case (Cons m ms)
  let ?prev = "case stage_rank m of None \<Rightarrow> prev | Some k \<Rightarrow> Some k"
  from Cons.prems have "pipeline_from ?prev ms"
    by (auto split: option.splits)
  moreover from Cons.prems have "stage_inv ?prev (state_of (handleBackendMessage m s))"
    by (intro stage_inv_step) (auto split: option.splits)
  ultimately show ?case
    using Cons.IH by (simp add: socket_onmessage_def)
qed

lemma pipeline_from_take: "pipeline_from prev ms \<Longrightarrow> pipeline_from prev (take n ms)"
proof (induction ms arbitrary: prev n)
  case Nil
  then show ?case by simp
next
  case (Cons m ms)
  then show ?case by (cases n) (auto split: option.splits)
qed

lemma stage_inv_exclusive:
  assumes "stage_inv prev s"
  shows "length (active_cards s) \<le> 1"
proof -
  have uniq: "r1 = r2" if "is_active r1 s" "is_active r2 s" for r1 r2
  proof -
    from assms that have "Some (card_rank r1) = Some (card_rank r2)"
      unfolding stage_inv_def by metis
    then show ?thesis by (cases r1; cases r2; simp add: card_rank_def)
  qed
  show ?thesis
    using uniq [of CardSearch CardAnalyst] uniq [of CardSearch CardDev] uniq [of CardAnalyst CardDev]
    unfolding active_cards_def by auto
qed

lemma no_active_stage_inv:
  assumes "active_cards s = []"
  shows "stage_inv None s"
proof -
  have "\<not> is_active r s" for r
    using assms unfolding active_cards_def by (cases r) (auto split: if_splits)
  then show ?thesis by (simp add: stage_inv_def)
qed


subsection \<open>Completed cards\<close>

lemma is_completed_setActiveCard:
  "is_completed r (setActiveCard c s) = (r \<noteq> c \<and> is_completed r s)"
  by (auto simp: is_completed_def card_get_setActiveCard classList_add_def split: option.splits)

lemma is_completed_completeCard:
  "is_completed r (completeCard c s) =
     (if r = c then card_get c (dom_elems s) \<noteq> None else is_completed r s)"
  by (auto simp: is_completed_def card_get_completeCard classList_remove_def split: option.splits)

lemma is_completed_present: "is_completed r s \<Longrightarrow> \<exists>e. card_get r (dom_elems s) = Some e"
  by (simp add: is_completed_def split: option.splits)

lemma is_completed_handle:
  assumes "msg_agent m \<noteq> Some (stage_tag r)" and "is_completed r s"
  shows "is_completed r (state_of (handleBackendMessage m s))"
proof -
  have "is_completed r (state_of (handleBackendMessage m s)) =
     (if msg_agent m = Some ''SEARCH'' then is_completed r (setActiveCard CardSearch s)
      else if msg_agent m = Some ''ANALYST''
      then is_completed r (setActiveCard CardAnalyst (completeCard CardSearch s))
      else if msg_agent m = Some ''DEV''
      then is_completed r (setActiveCard CardDev (completeCard CardAnalyst s))
      else if msg_agent m = Some ''COMPLETE'' then is_completed r (completeCard CardDev s)
      else is_completed r s)"
    unfolding is_completed_def card_get_handle by simp
  with assms is_completed_present [OF assms(2)] show ?thesis
    by (cases r)
       (simp_all add: is_completed_setActiveCard is_completed_completeCard stage_tag_def
                   split: if_splits)
qed

lemma is_completed_not_active: "is_completed r s \<Longrightarrow> \<not> is_active r s"
  by (auto simp: is_completed_def is_active_def has_class_def split: option.splits)

subsection \<open>The code preview\<close>

lemma codePreview_frame [simp]:
  "codePreview (dom_elems (logToTerminal t s)) = codePreview (dom_elems s)"
  "codePreview (dom_elems (addTag t s)) = codePreview (dom_elems s)"
  "codePreview (dom_elems (addFile t s)) = codePreview (dom_elems s)"
  "codePreview (dom_elems (console e s)) = codePreview (dom_elems s)"
  "codePreview (dom_elems (setActiveCard c s)) = codePreview (dom_elems s)"
  "codePreview (dom_elems (completeCard c s)) = codePreview (dom_elems s)"
  by (cases c; simp add: helper_defs split: option.splits)+

lemma codePreview_appendCode:
  "codePreview (dom_elems (appendCode t s)) =
     map_option (\<lambda>e. e\<lparr>innerText := read_preview s (inner_text_nodes (innerText e)) @ t\<rparr>)
       (codePreview (dom_elems s))"
  by (simp add: appendCode_def)

lemma codePreview_when_text [simp]:
  "(\<And>t s. codePreview (dom_elems (f t s)) = codePreview (dom_elems s)) \<Longrightarrow>
   codePreview (dom_elems (when_text x f s)) = codePreview (dom_elems s)"
  by (simp add: when_text_def split: option.splits)

lemma read_preview_frame [simp]:
  "read_preview (addFile t s) = read_preview s"
  "read_preview (appendCode t s) = read_preview s"
  "read_preview (setActiveCard c s) = read_preview s"
  "read_preview (completeCard c s) = read_preview s"
  "read_preview (resetUI s) = read_preview s"
  by (simp_all add: helper_defs resetUI_def split: option.splits)

lemma read_preview_when_text [simp]:
  "(\<And>t s. read_preview (f t s) = read_preview s) \<Longrightarrow> read_preview (when_text x f s) = read_preview s"
  by (simp add: when_text_def split: option.splits)

lemma process_append: "process (ms @ ms') s = process ms' (process ms s)"
  by (induction ms arbitrary: s) simp_all

text \<open>A string without carriage returns reads back from a \<^verbatim>\<open>pre\<close> as it was assigned.\<close>

lemma preformatted_nodes_from:
  "CHR 0x0D \<notin> set cs \<Longrightarrow> preformatted (nodes_from r cs) = r @ cs"
proof (induction r cs rule: nodes_from.induct)
  case (1 r)
  then show ?case by (simp add: preformatted_def text_run_def)
next
  case (2 r c cs)
  then show ?case by (auto simp: preformatted_def text_run_def)
qed

lemma preformatted_inner_text:
  "CHR 0x0D \<notin> set txt \<Longrightarrow> preformatted (inner_text_nodes txt) = txt"
  by (simp add: inner_text_nodes_def preformatted_nodes_from)

lemma stored_preview_DEV:
  assumes "msg_agent m = Some ''DEV''" and "read_preview s = preformatted"
    and "stored_preview s = Some txt" and "CHR 0x0D \<notin> set txt"
  shows "stored_preview (state_of (handleBackendMessage m s)) = Some (txt @ text_or (msg_code m) [])"
    and "read_preview (state_of (handleBackendMessage m s)) = preformatted"
proof -
  let ?s3 = "when_text (msg_file m) addFile (setActiveCard CardDev (completeCard CardAnalyst s))"
  from assms(3) obtain e where e: "codePreview (dom_elems s) = Some e" "innerText e = txt"
    by (auto simp: stored_preview_def)
  have s3: "codePreview (dom_elems ?s3) = Some e" "read_preview ?s3 = preformatted"
    using e assms(2) by simp_all
  show "stored_preview (state_of (handleBackendMessage m s)) = Some (txt @ text_or (msg_code m) [])"
    using s3 e(2) assms(4)
    by (simp add: handle_DEV [OF assms(1)] stored_preview_def when_text_def text_or_def
          codePreview_appendCode preformatted_inner_text split: option.splits)
  show "read_preview (state_of (handleBackendMessage m s)) = preformatted"
    using assms(2) by (simp add: handle_DEV [OF assms(1)])
qed

lemma stored_preview_process:
  assumes "\<forall>m \<in> set ms. msg_agent m = Some ''DEV'' \<and> CHR 0x0D \<notin> set (text_or (msg_code m) [])"
    and "read_preview s = preformatted"
    and "stored_preview s = Some buf" and "CHR 0x0D \<notin> set buf"
  shows "stored_preview (process ms s) = Some (buf @ concat (map (\<lambda>m. text_or (msg_code m) []) ms))
         \<and> read_preview (process ms s) = preformatted"
  using assms
proof (induction ms arbitrary: s buf)
  case Nil
  then show ?case by simp
next
  case (Cons m ms)
  let ?s1 = "state_of (handleBackendMessage m s)"
  let ?c = "text_or (msg_code m) []"
  from Cons.prems have m: "msg_agent m = Some ''DEV''" and c: "CHR 0x0D \<notin> set ?c"
    and rest: "\<forall>m \<in> set ms. msg_agent m = Some ''DEV'' \<and> CHR 0x0D \<notin> set (text_or (msg_code m) [])"
    by simp_all
  have step: "stored_preview ?s1 = Some (buf @ ?c)" "read_preview ?s1 = preformatted"
    using stored_preview_DEV [OF m Cons.prems(2,3,4)] by simp_all
  have "CHR 0x0D \<notin> set (buf @ ?c)"
    using Cons.prems(4) c by simp
  from Cons.IH [OF rest step(2) step(1) this] show ?case
    by (simp add: socket_onmessage_def)
qed

lemma preview_text_stored:
  assumes "read_preview s = preformatted" and "stored_preview s = Some txt" and "CHR 0x0D \<notin> set txt"
  shows "preview_text s = Some txt"
  using assms by (auto simp: preview_text_def stored_preview_def preformatted_inner_text)

lemma stored_preview_resetUI:
  "codePreview (dom_elems s) \<noteq> None \<Longrightarrow> stored_preview (resetUI s) = Some []"
  by (auto simp: resetUI_def stored_preview_def)

subsection \<open>Which elements exist never changes\<close>

lemma presence_helpers [simp]:
  "presence (dom_elems (logToTerminal t s)) = presence (dom_elems s)"
  "presence (dom_elems (addTag t s)) = presence (dom_elems s)"
  "presence (dom_elems (addFile t s)) = presence (dom_elems s)"
  "presence (dom_elems (appendCode t s)) = presence (dom_elems s)"
  "presence (dom_elems (console e s)) = presence (dom_elems s)"
  by (simp_all add: helper_defs presence_def)

lemma presence_cards [simp]:
  "presence (dom_elems (setActiveCard c s)) = presence (dom_elems s)"
  "presence (dom_elems (completeCard c s)) = presence (dom_elems s)"
  by (cases c; simp add: helper_defs presence_def split: option.splits)+

lemma presence_when_text [simp]:
  "(\<And>t s. presence (dom_elems (f t s)) = presence (dom_elems s)) \<Longrightarrow>
   presence (dom_elems (when_text x f s)) = presence (dom_elems s)"
  by (simp add: when_text_def split: option.splits)

lemma presence_updateIsland [simp]:
  "presence (dom_elems (state_of (updateIsland mode t sp s))) = presence (dom_elems s)"
  by (simp add: updateIsland_def presence_def Let_def split: option.splits)

lemma presence_analyst_metrics [simp]:
  "presence (dom_elems (state_of (analyst_metrics mt s))) = presence (dom_elems s)"
  by (simp add: analyst_metrics_def presence_def Let_def split: option.splits)

lemma presence_handle:
  "presence (dom_elems (state_of (handleBackendMessage m s))) = presence (dom_elems s)"
proof -
  let ?P = "\<lambda>s. presence (dom_elems s)"
  consider (search) "msg_agent m = Some ''SEARCH''" | (analyst) "msg_agent m = Some ''ANALYST''"
    | (dev) "msg_agent m = Some ''DEV''" | (complete) "msg_agent m = Some ''COMPLETE''"
    | (error) "msg_agent m = Some ''ERROR''"
    | (other) "msg_agent m \<noteq> Some ''SEARCH''" "msg_agent m \<noteq> Some ''ANALYST''"
        "msg_agent m \<noteq> Some ''DEV''" "msg_agent m \<noteq> Some ''COMPLETE''" "msg_agent m \<noteq> Some ''ERROR''"
    by blast
  then show ?thesis
  proof cases
    case search
    then show ?thesis by (simp add: handle_SEARCH split: option.splits)
  next
    case analyst
    have "?P (state_of (handleBackendMessage m s)) =
          ?P (state_of (case msg_metrics m of
                None \<Rightarrow> Inr (setActiveCard CardAnalyst (completeCard CardSearch s))
              | Some mt \<Rightarrow> analyst_metrics mt (setActiveCard CardAnalyst (completeCard CardSearch s))))"
      unfolding handle_ANALYST [OF analyst]
      by (rule state_of_andThen_frame) simp
    then show ?thesis by (simp split: option.splits)
  next
    case dev
    then show ?thesis by (simp add: handle_DEV)
  next
    case complete
    then show ?thesis by (simp add: handle_COMPLETE)
  next
    case error
    have "?P (state_of (handleBackendMessage m s)) =
          ?P (state_of (updateIsland ''idle'' ''ERROR OCCURRED'' False
                (logToTerminal (''[ERROR] '' @ text_or (msg_content m) ''Unknown error occurred'') s)))"
      unfolding handle_ERROR [OF error]
      by (rule state_of_andThen_frame) (simp add: presence_def console_def)
    then show ?thesis by simp
  next
    case other
    then show ?thesis by (simp add: handle_other)
  qed
qed

lemma presence_process: "presence (dom_elems (process ms s)) = presence (dom_elems s)"
  by (induction ms arbitrary: s) (simp_all add: socket_onmessage_def presence_handle)

lemma updateIsland_present:
  assumes "island (dom_elems s) \<noteq> None" and "islandText (dom_elems s) \<noteq> None"
  shows "updateIsland mode txt False s =
     Inr (dom_elems_update
            (islandDot_update (map_option (classList_update (classList_remove ''hidden'')))
             \<circ> islandSpinner_update (map_option (classList_update (classList_add ''hidden'')))
             \<circ> islandText_update (map_option (innerText_update (\<lambda>_. txt)))
             \<circ> island_update (map_option (classList_update (\<lambda>_. [''dynamic-island'', mode])))) s)"
  using assms by (auto simp: updateIsland_def Let_def comp_def split: option.splits)

lemma onclose_present:
  assumes "island (dom_elems s) \<noteq> None" and "islandText (dom_elems s) \<noteq> None"
    and "btnExport (dom_elems s) \<noteq> None"
  shows "\<exists>s'. socket_onclose s = Inr s'
           \<and> map_option classList (island (dom_elems s')) = Some [''dynamic-island'', ''success'']
           \<and> map_option innerText (islandText (dom_elems s')) = Some ''SEQUENCE COMPLETE''
           \<and> map_option disabled (btnExport (dom_elems s')) = Some False
           \<and> \<not> has_class ''hidden'' (btnExport (dom_elems s'))"
proof -
  let ?s0 = "console (ConsoleLog ''[SOCKET] Closed.'') s"
  have p: "island (dom_elems ?s0) \<noteq> None" "islandText (dom_elems ?s0) \<noteq> None"
    using assms by (simp_all add: console_def)
  obtain i t b where els: "island (dom_elems s) = Some i" "islandText (dom_elems s) = Some t"
      "btnExport (dom_elems s) = Some b"
    using assms by blast
  show ?thesis
    unfolding socket_onclose_def updateIsland_present [OF p]
    using els by (simp add: andThen_def has_class_def classList_remove_def console_def)
qed

lemma present_process:
  "(island (dom_elems (process ms s)) = None) = (island (dom_elems s) = None)"
  "(islandText (dom_elems (process ms s)) = None) = (islandText (dom_elems s) = None)"
  "(btnExport (dom_elems (process ms s)) = None) = (btnExport (dom_elems s) = None)"
  "(gauges (dom_elems (process ms s)) = None) = (gauges (dom_elems s) = None)"
  "(progressHeat (dom_elems (process ms s)) = None) = (progressHeat (dom_elems s) = None)"
  "(progressROI (dom_elems (process ms s)) = None) = (progressROI (dom_elems s) = None)"
  using presence_process [of ms s] by (simp_all add: presence_def)

subsection \<open>Starting a session\<close>

lemma shakeInput_present:
  "input (dom_elems s) = Some inp \<Longrightarrow>
   shakeInput s =
     Inr (s\<lparr>dom_elems := (dom_elems s)\<lparr>input := Some (inp\<lparr>parent_borderColor := ''var(--accent-red)''\<rparr>)\<rparr>,
           trace := trace s @ [SetTimeout RestoreInputBorder 500]\<rparr>)"
  by (simp add: shakeInput_def)

lemma updateIsland_spinner_present:
  assumes "island (dom_elems s) \<noteq> None" and "islandText (dom_elems s) \<noteq> None"
  shows "updateIsland mode txt True s =
     Inr (dom_elems_update
            (islandDot_update (map_option (classList_update (classList_add ''hidden'')))
             \<circ> islandSpinner_update (map_option (classList_update (classList_remove ''hidden'')))
             \<circ> islandText_update (map_option (innerText_update (\<lambda>_. txt)))
             \<circ> island_update (map_option (classList_update (\<lambda>_. [''dynamic-island'', mode])))) s)"
  using assms by (auto simp: updateIsland_def Let_def comp_def split: option.splits)

lemma updateIsland_keeps:
  "searchCount (state_of (updateIsland mode txt sp s)) = searchCount s"
  "paywallModal (dom_elems (state_of (updateIsland mode txt sp s))) = paywallModal (dom_elems s)"
  "isPremium (state_of (updateIsland mode txt sp s)) = isPremium s"
  by (simp_all add: updateIsland_def Let_def split: option.splits)

lemma initiate_premium:
  assumes "isPremium s"
  shows "searchCount (state_of (initiateRealProtocol s)) = searchCount s
         \<and> paywallModal (dom_elems (state_of (initiateRealProtocol s))) = paywallModal (dom_elems s)"
proof (cases "input (dom_elems s)")
  case None
  then show ?thesis by (simp add: initiateRealProtocol_def)
next
  case (Some inp)
  show ?thesis
  proof (cases "js_trim (input_value inp) = []")
    case True
    with Some show ?thesis by (simp add: initiateRealProtocol_def shakeInput_def)
  next
    case False
    let ?s3 = "(console (ConsoleLog (''[ACTION] Initiating sequence for: '' @ js_trim (input_value inp))) s)
                 \<lparr>state_idea := js_trim (input_value inp), state_status := ''CONNECTING''\<rparr>"
    have eq: "initiateRealProtocol s =
        andThen (updateIsland ''active'' ''ESTABLISHING UPLINK...'' True ?s3)
          (\<lambda>s4. Inr ((resetUI s4)\<lparr>trace := trace (resetUI s4)
                        @ [Fetch (start_request (js_trim (input_value inp)) (resetUI s4))]\<rparr>))"
      using Some False assms by (simp add: initiateRealProtocol_def Let_def console_def)
    have "searchCount (state_of (initiateRealProtocol s))
            = searchCount (state_of (updateIsland ''active'' ''ESTABLISHING UPLINK...'' True ?s3))"
      unfolding eq
      by (rule state_of_andThen_frame [where P = searchCount]) (simp add: resetUI_def)
    moreover have "paywallModal (dom_elems (state_of (initiateRealProtocol s)))
            = paywallModal (dom_elems (state_of (updateIsland ''active'' ''ESTABLISHING UPLINK...'' True ?s3)))"
      unfolding eq
      by (rule state_of_andThen_frame [where P = "\<lambda>s. paywallModal (dom_elems s)"])
         (simp add: resetUI_def)
    ultimately show ?thesis
      by (simp add: updateIsland_keeps console_def)
  qed
qed

lemma initiate_paywall:
  assumes "input (dom_elems s) = Some inp" and "js_trim (input_value inp) \<noteq> []"
    and "\<not> isPremium s" and "3 \<le> searchCount s" and "paywallModal (dom_elems s) \<noteq> None"
  shows "initiateRealProtocol s =
     Inr (dom_elems_update
            (paywallModal_update (map_option (classList_update (classList_remove ''hidden'')))) s)"
  using assms by (auto simp: initiateRealProtocol_def Let_def)

lemma initiate_counted:
  assumes "input (dom_elems s) = Some inp" and "js_trim (input_value inp) \<noteq> []"
    and "\<not> isPremium s" and "searchCount s < 3"
    and "island (dom_elems s) \<noteq> None" and "islandText (dom_elems s) \<noteq> None"
  shows "\<exists>s'. initiateRealProtocol s = Inr s'
           \<and> searchCount s' = searchCount s + 1
           \<and> localStorage s' ''wyronix_search_count'' = Some (toString (searchCount s + 1))
           \<and> trace s' = trace s
                @ [ConsoleLog (''[ACTION] Initiating sequence for: '' @ js_trim (input_value inp)),
                   StorageSet ''wyronix_search_count'' (toString (searchCount s + 1)),
                   Fetch (start_request (js_trim (input_value inp)) s')]
           \<and> paywallModal (dom_elems s') = paywallModal (dom_elems s)"
proof -
  let ?idea = "js_trim (input_value inp)"
  let ?s3 = "(storage_setItem ''wyronix_search_count'' (toString (searchCount s + 1))
               ((console (ConsoleLog (''[ACTION] Initiating sequence for: '' @ ?idea)) s)
                  \<lparr>searchCount := searchCount s + 1\<rparr>))
             \<lparr>state_idea := ?idea, state_status := ''CONNECTING''\<rparr>"
  have eq: "initiateRealProtocol s =
      andThen (updateIsland ''active'' ''ESTABLISHING UPLINK...'' True ?s3)
        (\<lambda>s4. Inr ((resetUI s4)\<lparr>trace := trace (resetUI s4)
                      @ [Fetch (start_request ?idea (resetUI s4))]\<rparr>))"
    using assms(1-4) by (simp add: initiateRealProtocol_def Let_def console_def)
  have p: "island (dom_elems ?s3) \<noteq> None" "islandText (dom_elems ?s3) \<noteq> None"
    using assms(5,6) by (simp_all add: console_def storage_setItem_def)
  show ?thesis
    unfolding eq updateIsland_spinner_present [OF p]
    by (simp add: andThen_def resetUI_def console_def storage_setItem_def start_request_def)
qed

subsection \<open>The gauges\<close>

lemma bars_frame [simp]:
  "progressHeat (dom_elems (logToTerminal t s)) = progressHeat (dom_elems s)"
  "progressROI (dom_elems (logToTerminal t s)) = progressROI (dom_elems s)"
  "gauges (dom_elems (logToTerminal t s)) = gauges (dom_elems s)"
  "progressHeat (dom_elems (setActiveCard c s)) = progressHeat (dom_elems s)"
  "progressROI (dom_elems (setActiveCard c s)) = progressROI (dom_elems s)"
  "gauges (dom_elems (setActiveCard c s)) = gauges (dom_elems s)"
  "progressHeat (dom_elems (completeCard c s)) = progressHeat (dom_elems s)"
  "progressROI (dom_elems (completeCard c s)) = progressROI (dom_elems s)"
  "gauges (dom_elems (completeCard c s)) = gauges (dom_elems s)"
  by (cases c; simp add: helper_defs split: option.splits)+

lemma bars_when_text [simp]:
  "(\<And>t s. progressHeat (dom_elems (f t s)) = progressHeat (dom_elems s)) \<Longrightarrow>
   progressHeat (dom_elems (when_text x f s)) = progressHeat (dom_elems s)"
  "(\<And>t s. progressROI (dom_elems (f t s)) = progressROI (dom_elems s)) \<Longrightarrow>
   progressROI (dom_elems (when_text x f s)) = progressROI (dom_elems s)"
  by (simp_all add: when_text_def split: option.splits)

lemma bars_analyst_metrics:
  assumes "gauges (dom_elems s) \<noteq> None"
  shows "progressHeat (dom_elems (state_of (analyst_metrics mt s))) =
           map_option (set_gauge (num_or (metrics_heat mt) 0)) (progressHeat (dom_elems s))"
    and "progressROI (dom_elems (state_of (analyst_metrics mt s))) =
           map_option (set_gauge (num_or (metrics_roi mt) 0)) (progressROI (dom_elems s))"
  using assms by (auto simp: analyst_metrics_def Let_def split: option.splits)

lemma bars_handle_ANALYST:
  assumes "msg_agent m = Some ''ANALYST''" and "gauges (dom_elems s) \<noteq> None"
  shows "progressHeat (dom_elems (state_of (handleBackendMessage m s))) =
           (case heat_of m of None \<Rightarrow> progressHeat (dom_elems s)
            | Some h \<Rightarrow> map_option (set_gauge h) (progressHeat (dom_elems s)))"
    and "progressROI (dom_elems (state_of (handleBackendMessage m s))) =
           (case roi_of m of None \<Rightarrow> progressROI (dom_elems s)
            | Some h \<Rightarrow> map_option (set_gauge h) (progressROI (dom_elems s)))"
proof -
  let ?s2 = "setActiveCard CardAnalyst (completeCard CardSearch s)"
  let ?r = "case msg_metrics m of None \<Rightarrow> Inr ?s2 | Some mt \<Rightarrow> analyst_metrics mt ?s2"
  have g: "gauges (dom_elems ?s2) \<noteq> None"
    using assms(2) by simp
  have "progressHeat (dom_elems (state_of (handleBackendMessage m s))) = progressHeat (dom_elems (state_of ?r))"
    unfolding handle_ANALYST [OF assms(1)]
    by (rule state_of_andThen_frame [where P = "\<lambda>s. progressHeat (dom_elems s)"]) simp
  then show "progressHeat (dom_elems (state_of (handleBackendMessage m s))) =
           (case heat_of m of None \<Rightarrow> progressHeat (dom_elems s)
            | Some h \<Rightarrow> map_option (set_gauge h) (progressHeat (dom_elems s)))"
    using assms(1) by (simp add: heat_of_def bars_analyst_metrics [OF g] split: option.splits)
  have "progressROI (dom_elems (state_of (handleBackendMessage m s))) = progressROI (dom_elems (state_of ?r))"
    unfolding handle_ANALYST [OF assms(1)]
    by (rule state_of_andThen_frame [where P = "\<lambda>s. progressROI (dom_elems s)"]) simp
  then show "progressROI (dom_elems (state_of (handleBackendMessage m s))) =
           (case roi_of m of None \<Rightarrow> progressROI (dom_elems s)
            | Some h \<Rightarrow> map_option (set_gauge h) (progressROI (dom_elems s)))"
    using assms(1) by (simp add: roi_of_def bars_analyst_metrics [OF g] split: option.splits)
qed

lemma intense_set_gauge:
  "has_class ''intense'' (map_option (set_gauge h) eo) =
     (has_class ''intense'' eo \<or> (eo \<noteq> None \<and> 70 < h))"
  by (cases eo) (auto simp: has_class_def set_gauge_def Let_def classList_add_def)

lemma width_set_gauge:
  "map_option width (map_option (set_gauge h) eo) = map_option (\<lambda>_. toString h @ ''%'') eo"
  by (cases eo) (simp_all add: set_gauge_def Let_def)

lemma num_or_zero: "num_or x 0 = (case x of None \<Rightarrow> 0 | Some n \<Rightarrow> n)"
  by (simp add: num_or_def split: option.splits)

lemma present_handle:
  "(gauges (dom_elems (state_of (handleBackendMessage m s))) = None) = (gauges (dom_elems s) = None)"
  "(progressHeat (dom_elems (state_of (handleBackendMessage m s))) = None) = (progressHeat (dom_elems s) = None)"
  "(progressROI (dom_elems (state_of (handleBackendMessage m s))) = None) = (progressROI (dom_elems s) = None)"
  using presence_handle [of m s] by (simp_all add: presence_def)

lemma intense_heat_process:
  assumes "\<forall>m \<in> set ms. msg_agent m = Some ''ANALYST''"
    and "gauges (dom_elems s) \<noteq> None" and "progressHeat (dom_elems s) \<noteq> None"
  shows "has_class ''intense'' (progressHeat (dom_elems (process ms s))) =
           (has_class ''intense'' (progressHeat (dom_elems s))
            \<or> (\<exists>m \<in> set ms. \<exists>h. heat_of m = Some h \<and> 70 < h))"
  using assms
proof (induction ms arbitrary: s)
  case Nil
  then show ?case by simp
next
  case (Cons m ms)
  let ?s1 = "state_of (handleBackendMessage m s)"
  from Cons.prems have m: "msg_agent m = Some ''ANALYST''"
    and rest: "\<forall>m \<in> set ms. msg_agent m = Some ''ANALYST''"
    by simp_all
  from Cons.prems have pres: "gauges (dom_elems ?s1) \<noteq> None" "progressHeat (dom_elems ?s1) \<noteq> None"
    by (simp_all add: present_handle)
  have step: "has_class ''intense'' (progressHeat (dom_elems ?s1)) =
          (has_class ''intense'' (progressHeat (dom_elems s)) \<or> (\<exists>h. heat_of m = Some h \<and> 70 < h))"
    using Cons.prems(3) bars_handle_ANALYST(1) [OF m Cons.prems(2)]
    by (cases "heat_of m") (simp_all add: intense_set_gauge)
  show ?case
    using Cons.IH [OF rest pres] step by (auto simp: socket_onmessage_def)
qed

lemma intense_roi_process:
  assumes "\<forall>m \<in> set ms. msg_agent m = Some ''ANALYST''"
    and "gauges (dom_elems s) \<noteq> None" and "progressROI (dom_elems s) \<noteq> None"
  shows "has_class ''intense'' (progressROI (dom_elems (process ms s))) =
           (has_class ''intense'' (progressROI (dom_elems s))
            \<or> (\<exists>m \<in> set ms. \<exists>h. roi_of m = Some h \<and> 70 < h))"
  using assms
proof (induction ms arbitrary: s)
  case Nil
  then show ?case by simp
next
  case (Cons m ms)
  let ?s1 = "state_of (handleBackendMessage m s)"
  from Cons.prems have m: "msg_agent m = Some ''ANALYST''"
    and rest: "\<forall>m \<in> set ms. msg_agent m = Some ''ANALYST''"
    by simp_all
  from Cons.prems have pres: "gauges (dom_elems ?s1) \<noteq> None" "progressROI (dom_elems ?s1) \<noteq> None"
    by (simp_all add: present_handle)
  have step: "has_class ''intense'' (progressROI (dom_elems ?s1)) =
          (has_class ''intense'' (progressROI (dom_elems s)) \<or> (\<exists>h. roi_of m = Some h \<and> 70 < h))"
    using Cons.prems(3) bars_handle_ANALYST(2) [OF m Cons.prems(2)]
    by (cases "roi_of m") (simp_all add: intense_set_gauge)
  show ?case
    using Cons.IH [OF rest pres] step by (auto simp: socket_onmessage_def)
qed

lemma width_last:
  assumes "msg_agent m = Some ''ANALYST''" and "msg_metrics m = Some mt"
    and "gauges (dom_elems s) \<noteq> None"
  shows "map_option width (progressHeat (dom_elems (state_of (handleBackendMessage m s)))) =
           map_option (\<lambda>_. toString (case metrics_heat mt of None \<Rightarrow> 0 | Some h \<Rightarrow> h) @ ''%'')
             (progressHeat (dom_elems s))"
    and "map_option width (progressROI (dom_elems (state_of (handleBackendMessage m s)))) =
           map_option (\<lambda>_. toString (case metrics_roi mt of None \<Rightarrow> 0 | Some h \<Rightarrow> h) @ ''%'')
             (progressROI (dom_elems s))"
  using assms bars_handle_ANALYST [OF assms(1,3)]
  by (simp_all add: heat_of_def roi_of_def width_set_gauge num_or_zero)

text \<open>
  What the code does to the gauges over a sequence of \<^verbatim>\<open>ANALYST\<close> events: a gauge is
  flagged \<^verbatim>\<open>intense\<close> afterwards exactly when it was flagged before or some event of
  the sequence set it a value above 70 (the flag is added, never removed), and after a
  last event with metrics each gauge shows that event's value, 0 for an absent one.
\<close>

lemma gauges_after_analyst_events:
  assumes "\<forall>m \<in> set ms. msg_agent m = Some ''ANALYST''"
    and "gauges (dom_elems s) \<noteq> None"
    and "progressHeat (dom_elems s) \<noteq> None" and "progressROI (dom_elems s) \<noteq> None"
  shows "(has_class ''intense'' (progressHeat (dom_elems (process ms s))) =
           (has_class ''intense'' (progressHeat (dom_elems s))
            \<or> (\<exists>m \<in> set ms. \<exists>h. heat_of m = Some h \<and> 70 < h)))
       \<and> (has_class ''intense'' (progressROI (dom_elems (process ms s))) =
           (has_class ''intense'' (progressROI (dom_elems s))
            \<or> (\<exists>m \<in> set ms. \<exists>h. roi_of m = Some h \<and> 70 < h)))
       \<and> (\<forall>ms' m mt. ms = ms' @ [m] \<and> msg_metrics m = Some mt \<longrightarrow>
            map_option width (progressHeat (dom_elems (process ms s)))
              = Some (toString (case metrics_heat mt of None \<Rightarrow> 0 | Some h \<Rightarrow> h) @ ''%'')
            \<and> map_option width (progressROI (dom_elems (process ms s)))
              = Some (toString (case metrics_roi mt of None \<Rightarrow> 0 | Some h \<Rightarrow> h) @ ''%''))"
proof (intro conjI allI impI)
  show "has_class ''intense'' (progressHeat (dom_elems (process ms s))) =
           (has_class ''intense'' (progressHeat (dom_elems s))
            \<or> (\<exists>m \<in> set ms. \<exists>h. heat_of m = Some h \<and> 70 < h))"
    using assms by (intro intense_heat_process)
  show "has_class ''intense'' (progressROI (dom_elems (process ms s))) =
           (has_class ''intense'' (progressROI (dom_elems s))
            \<or> (\<exists>m \<in> set ms. \<exists>h. roi_of m = Some h \<and> 70 < h))"
    using assms by (intro intense_roi_process)
next
  fix ms' m mt
  assume a: "ms = ms' @ [m] \<and> msg_metrics m = Some mt"
  let ?s1 = "process ms' s"
  from a assms(1) have m: "msg_agent m = Some ''ANALYST''" by simp
  have pres: "gauges (dom_elems ?s1) \<noteq> None" "progressHeat (dom_elems ?s1) \<noteq> None"
      "progressROI (dom_elems ?s1) \<noteq> None"
    using assms(2-4) by (simp_all add: present_process)
  have eq: "process ms s = state_of (handleBackendMessage m ?s1)"
    using a by (simp add: process_append socket_onmessage_def)
  from a have mt: "msg_metrics m = Some mt" by simp
  show "map_option width (progressHeat (dom_elems (process ms s)))
              = Some (toString (case metrics_heat mt of None \<Rightarrow> 0 | Some h \<Rightarrow> h) @ ''%'')"
    unfolding eq width_last(1) [OF m mt pres(1)] using pres(2) by auto
  show "map_option width (progressROI (dom_elems (process ms s)))
              = Some (toString (case metrics_roi mt of None \<Rightarrow> 0 | Some h \<Rightarrow> h) @ ''%'')"
    unfolding eq width_last(2) [OF m mt pres(1)] using pres(3) by auto
qed

section \<open>Properties\<close>

text \<open>
  C1 (as amended). For every sequence of Update Events in pipeline order (each
  \<^verbatim>\<open>SEARCH\<close>, \<^verbatim>\<open>ANALYST\<close> or \<^verbatim>\<open>DEV\<close> event names the same stage as the stage event before it,
  or the next one), processed by \<^verbatim>\<open>handleBackendMessage\<close> from a state in which no card
  is active, at most one of the three stage cards carries \<^verbatim>\<open>active-card\<close> after every
  prefix of the sequence.
\<close>

theorem active_card_exclusive_in_pipeline_order:
  assumes "pipeline_order ms" and "active_cards s = []"
  shows "length (active_cards (process (take n ms) s)) \<le> 1"
proof -
  from assms(1) have "pipeline_from None (take n ms)"
    unfolding pipeline_order_def by (rule pipeline_from_take)
  with assms(2) obtain prev' where "stage_inv prev' (process (take n ms) s)"
    using stage_inv_process no_active_stage_inv by blast
  then show ?thesis by (rule stage_inv_exclusive)
qed

theorem active_card_exclusive_witness:
  "pipeline_order [event ''SEARCH'', event ''ANALYST'', event ''DEV'', event ''COMPLETE'']
   \<and> active_cards fresh_engine = []
   \<and> length (active_cards
        (process (take 3 [event ''SEARCH'', event ''ANALYST'', event ''DEV'', event ''COMPLETE''])
           fresh_engine)) \<le> 1"
proof -
  have h1: "pipeline_order [event ''SEARCH'', event ''ANALYST'', event ''DEV'', event ''COMPLETE'']"
    by code_simp
  have h2: "active_cards fresh_engine = []"
    by code_simp
  show ?thesis
    using h1 h2 active_card_exclusive_in_pipeline_order [OF h1 h2, of 3] by blast
qed

text \<open>
  C1 as stated fails: a \<^verbatim>\<open>DEV\<close> event straight after a \<^verbatim>\<open>SEARCH\<close> event leaves both the
  SEARCH card and the DEV card active, since \<^verbatim>\<open>setActiveCard\<close> removes \<^verbatim>\<open>active-card\<close> from
  no card and the \<^verbatim>\<open>DEV\<close> case completes the ANALYST card only.
\<close>

theorem active_card_exclusive_counterexample:
  "active_cards (process [event ''SEARCH'', event ''DEV''] fresh_engine) = [CardSearch, CardDev]"
  by code_simp

text \<open>
  C2 (as amended). Once a stage card is marked completed (it bears what \<^verbatim>\<open>completeCard\<close>
  leaves on it), it stays completed and is not re-marked active by any later events
  of the session, as long as none of them carries that card's own stage tag: only a
  \<^verbatim>\<open>SEARCH\<close> event re-activates the SEARCH card, only an \<^verbatim>\<open>ANALYST\<close> event the ANALYST card,
  only a \<^verbatim>\<open>DEV\<close> event the DEV card.
\<close>

theorem completed_card_stays_without_own_tag:
  assumes "is_completed r s" and "\<forall>m \<in> set ms. msg_agent m \<noteq> Some (stage_tag r)"
  shows "is_completed r (process ms s) \<and> \<not> is_active r (process ms s)"
proof -
  from assms have "is_completed r (process ms s)"
  proof (induction ms arbitrary: s)
    case Nil
    then show ?case by simp
  next
    case (Cons m ms)
    then show ?case by (simp add: socket_onmessage_def is_completed_handle)
  qed
  then show ?thesis by (simp add: is_completed_not_active)
qed

theorem completed_card_stays_witness:
  "is_completed CardSearch (process [event ''ANALYST''] fresh_engine)
   \<and> is_completed CardSearch
        (process [event ''DEV'', event ''COMPLETE''] (process [event ''ANALYST''] fresh_engine))
   \<and> \<not> is_active CardSearch
        (process [event ''DEV'', event ''COMPLETE''] (process [event ''ANALYST''] fresh_engine))"
proof -
  have h1: "is_completed CardSearch (process [event ''ANALYST''] fresh_engine)"
    by code_simp
  have h2: "\<forall>m \<in> set [event ''DEV'', event ''COMPLETE'']. msg_agent m \<noteq> Some (stage_tag CardSearch)"
    by (simp add: event_def stage_tag_def)
  show ?thesis
    using h1 h2 completed_card_stays_without_own_tag [OF h1 h2] by blast
qed

text \<open>
  C2 as stated fails: the \<^verbatim>\<open>ANALYST\<close> event completes the SEARCH card, and a \<^verbatim>\<open>SEARCH\<close> event
  after it marks the SEARCH card active again (\<^verbatim>\<open>setActiveCard\<close> does not look at whether
  the card was completed).
\<close>

theorem completed_card_reactivated_counterexample:
  "is_completed CardSearch (process [event ''ANALYST''] fresh_engine)
   \<and> is_active CardSearch (process [event ''ANALYST'', event ''SEARCH''] fresh_engine)"
  by code_simp

text \<open>
  C3. Whenever the close handler of the update stream runs, whatever tagged messages
  were processed before it (an \<^verbatim>\<open>ERROR\<close> event last, for one), the island is set to
  success with the text \<^verbatim>\<open>SEQUENCE COMPLETE\<close> and the export button is unhidden and
  enabled. (The page has an island, an island text and an export button.)
\<close>

theorem stream_close_signals_success:
  assumes "island (dom_elems s) \<noteq> None" and "islandText (dom_elems s) \<noteq> None"
    and "btnExport (dom_elems s) \<noteq> None"
  shows "\<exists>s'. socket_onclose (process ms s) = Inr s'
           \<and> map_option classList (island (dom_elems s')) = Some [''dynamic-island'', ''success'']
           \<and> map_option innerText (islandText (dom_elems s')) = Some ''SEQUENCE COMPLETE''
           \<and> map_option disabled (btnExport (dom_elems s')) = Some False
           \<and> \<not> has_class ''hidden'' (btnExport (dom_elems s'))"
  using assms by (intro onclose_present) (simp_all add: present_process)

theorem stream_close_signals_success_witness:
  "island (dom_elems fresh_engine) \<noteq> None \<and> islandText (dom_elems fresh_engine) \<noteq> None
   \<and> btnExport (dom_elems fresh_engine) \<noteq> None
   \<and> (\<exists>s'. socket_onclose (process [event ''ERROR''] fresh_engine) = Inr s'
           \<and> map_option classList (island (dom_elems s')) = Some [''dynamic-island'', ''success'']
           \<and> map_option innerText (islandText (dom_elems s')) = Some ''SEQUENCE COMPLETE''
           \<and> map_option disabled (btnExport (dom_elems s')) = Some False
           \<and> \<not> has_class ''hidden'' (btnExport (dom_elems s')))"
proof -
  have h1: "island (dom_elems fresh_engine) \<noteq> None" by code_simp
  have h2: "islandText (dom_elems fresh_engine) \<noteq> None" by code_simp
  have h3: "btnExport (dom_elems fresh_engine) \<noteq> None" by code_simp
  show ?thesis using h1 h2 h3 stream_close_signals_success [OF h1 h2 h3, of "[event ''ERROR'']"] by blast
qed

text \<open>
  C4. The claim: the gauge values are taken as 0 when absent, and after any sequence
  of \<^verbatim>\<open>ANALYST\<close> events a gauge carries \<^verbatim>\<open>intense\<close> if and only if its current value
  exceeds 70. The code does not keep the second part: after the events with heat 80
  and then heat 40, on a reset page, the heat gauge shows \<^verbatim>\<open>40%\<close> and is still flagged
  \<^verbatim>\<open>intense\<close>, since the \<^verbatim>\<open>ANALYST\<close> case adds the class and nothing removes it.
\<close>

theorem intense_flag_not_cleared:
  "has_class ''intense'' (progressHeat (dom_elems (process [heat_event 80, heat_event 40] fresh_engine)))
   \<and> map_option width (progressHeat (dom_elems (process [heat_event 80, heat_event 40] fresh_engine)))
       = Some ''40%''"
  by code_simp

text \<open>
  C5 (as amended). Processing a \<^verbatim>\<open>COMPLETE\<close> event marks the DEV stage card completed and
  sets the island to the success state; it leaves the export button as it was (the
  close handler of the stream is what unhides and enables it).
\<close>

theorem complete_event_effect:
  assumes "msg_agent m = Some ''COMPLETE''"
    and "island (dom_elems s) \<noteq> None" and "islandText (dom_elems s) \<noteq> None"
    and "cardDev (dom_elems s) \<noteq> None"
  shows "\<exists>s'. handleBackendMessage m s = Inr s'
           \<and> is_completed CardDev s'
           \<and> map_option classList (island (dom_elems s')) = Some [''dynamic-island'', ''success'']
           \<and> map_option innerText (islandText (dom_elems s')) = Some ''SEQUENCE COMPLETE''
           \<and> btnExport (dom_elems s') = btnExport (dom_elems s)"
proof -
  let ?s0 = "completeCard CardDev s"
  obtain i t c where els: "island (dom_elems s) = Some i" "islandText (dom_elems s) = Some t"
      "cardDev (dom_elems s) = Some c"
    using assms by blast
  have p: "island (dom_elems ?s0) \<noteq> None" "islandText (dom_elems ?s0) \<noteq> None"
    using els by (simp_all add: helper_defs)
  show ?thesis
    unfolding handle_COMPLETE [OF assms(1)] updateIsland_present [OF p]
    using els by (simp add: helper_defs is_completed_def classList_remove_def)
qed

theorem complete_event_effect_witness:
  "msg_agent (event ''COMPLETE'') = Some ''COMPLETE''
   \<and> island (dom_elems fresh_engine) \<noteq> None \<and> islandText (dom_elems fresh_engine) \<noteq> None
   \<and> cardDev (dom_elems fresh_engine) \<noteq> None
   \<and> (\<exists>s'. handleBackendMessage (event ''COMPLETE'') fresh_engine = Inr s'
           \<and> is_completed CardDev s'
           \<and> map_option classList (island (dom_elems s')) = Some [''dynamic-island'', ''success'']
           \<and> map_option innerText (islandText (dom_elems s')) = Some ''SEQUENCE COMPLETE''
           \<and> btnExport (dom_elems s') = btnExport (dom_elems fresh_engine))"
proof -
  have h0: "msg_agent (event ''COMPLETE'') = Some ''COMPLETE''" by (simp add: event_def)
  have h1: "island (dom_elems fresh_engine) \<noteq> None" by code_simp
  have h2: "islandText (dom_elems fresh_engine) \<noteq> None" by code_simp
  have h3: "cardDev (dom_elems fresh_engine) \<noteq> None" by code_simp
  show ?thesis using h0 h1 h2 h3 complete_event_effect [OF h0 h1 h2 h3] by blast
qed

text \<open>
  C5 as stated fails in its last part: after a \<^verbatim>\<open>COMPLETE\<close> event on a reset page the
  export button is still hidden and disabled.
\<close>

theorem complete_event_export_counterexample:
  "has_class ''hidden'' (btnExport (dom_elems (state_of (handleBackendMessage (event ''COMPLETE'') fresh_engine))))
   \<and> map_option disabled (btnExport (dom_elems (state_of (handleBackendMessage (event ''COMPLETE'') fresh_engine))))
       = Some True"
  by code_simp

text \<open>
  C6 (as amended). For every sequence of \<^verbatim>\<open>DEV\<close> events carrying the code payloads
  \<open>c1, ..., cn\<close>, none of which holds a carriage return, processed in order from a reset
  code preview (\<^verbatim>\<open>resetUI\<close> empties it) on a page whose code preview renders its text as
  it is (a displayed \<^verbatim>\<open>pre\<close>), the preview afterwards reads as the concatenation
  \<open>c1 @ ... @ cn\<close>: each event appends its payload.
\<close>

theorem code_preview_concatenates:
  assumes "\<forall>m \<in> set ms. msg_agent m = Some ''DEV''"
    and "map msg_code ms = map Some cs"
    and "\<forall>c \<in> set cs. CHR 0x0D \<notin> set c"
    and "codePreview (dom_elems s) \<noteq> None"
    and "read_preview s = preformatted"
  shows "preview_text (process ms (resetUI s)) = Some (concat cs)"
proof -
  have codes: "map (\<lambda>m. text_or (msg_code m) []) ms = cs"
    using assms(2)
  proof (induction ms arbitrary: cs)
    case Nil
    then show ?case by simp
  next
    case (Cons m ms)
    then show ?case by (cases cs) (auto simp: text_or_def)
  qed
  have "\<forall>m \<in> set ms. CHR 0x0D \<notin> set (text_or (msg_code m) [])"
  proof
    fix m assume "m \<in> set ms"
    then have "text_or (msg_code m) [] \<in> set (map (\<lambda>m. text_or (msg_code m) []) ms)"
      by simp
    with codes assms(3) show "CHR 0x0D \<notin> set (text_or (msg_code m) [])"
      by simp
  qed
  with assms(1)
  have all: "\<forall>m \<in> set ms. msg_agent m = Some ''DEV'' \<and> CHR 0x0D \<notin> set (text_or (msg_code m) [])"
    by simp
  have start: "read_preview (resetUI s) = preformatted" "stored_preview (resetUI s) = Some []"
    using assms(4,5) by (simp_all add: stored_preview_resetUI)
  have "CHR 0x0D \<notin> set ([] :: string)"
    by simp
  from stored_preview_process [OF all start this]
  have "stored_preview (process ms (resetUI s)) = Some (concat cs)"
    and "read_preview (process ms (resetUI s)) = preformatted"
    using codes by simp_all
  moreover have "CHR 0x0D \<notin> set (concat cs)"
    using assms(3) by auto
  ultimately show ?thesis
    by (intro preview_text_stored)
qed

theorem code_preview_concatenates_witness:
  "map msg_code [code_event ''ab'', code_event ''cd''] = map Some [''ab'', ''cd'']
   \<and> codePreview (dom_elems fresh_engine) \<noteq> None
   \<and> preview_text (process [code_event ''ab'', code_event ''cd''] (resetUI fresh_engine))
       = Some ''abcd''"
proof -
  have h1: "\<forall>m \<in> set [code_event ''ab'', code_event ''cd'']. msg_agent m = Some ''DEV''"
    by (simp add: code_event_def event_def)
  have h2: "map msg_code [code_event ''ab'', code_event ''cd''] = map Some [''ab'', ''cd'']"
    by (simp add: code_event_def event_def)
  have h3: "\<forall>c \<in> set [''ab'', ''cd'']. CHR 0x0D \<notin> set c"
    by simp
  have h4: "codePreview (dom_elems fresh_engine) \<noteq> None"
    by code_simp
  have h5: "read_preview fresh_engine = preformatted"
    by (simp add: fresh_engine_def resetUI_def)
  show ?thesis
    using h2 h4 code_preview_concatenates [OF h1 h2 h3 h4 h5] by simp
qed

text \<open>
  C6 as stated fails for a payload with a carriage return, on any page: assigning to
  \<^verbatim>\<open>innerText\<close> turns CR LF into one line break, which reads back as a line feed. After
  the payloads \<^verbatim>\<open>a CR LF b\<close> and \<^verbatim>\<open>c\<close> the preview of a \<^verbatim>\<open>pre\<close> reads \<^verbatim>\<open>a LF b c\<close>, which is not
  their concatenation. (On a page that collapses white space the read-back changes
  other payloads too.)
\<close>

theorem code_preview_carriage_return_counterexample:
  "preview_text
     (process [code_event [CHR ''a'', CHR 0x0D, CHR 0x0A, CHR ''b''], code_event ''c''] (resetUI fresh_engine))
     = Some [CHR ''a'', CHR 0x0A, CHR ''b'', CHR ''c'']
   \<and> concat [[CHR ''a'', CHR 0x0D, CHR 0x0A, CHR ''b''], ''c'']
       \<noteq> [CHR ''a'', CHR 0x0A, CHR ''b'', CHR ''c'']"
  by code_simp

text \<open>
  C7. An Update Event whose agent tag is none of \<^verbatim>\<open>SEARCH\<close>, \<^verbatim>\<open>ANALYST\<close>, \<^verbatim>\<open>DEV\<close>, \<^verbatim>\<open>COMPLETE\<close>,
  \<^verbatim>\<open>ERROR\<close> (or that has no tag) leaves the engine and every element of the page as they
  were; the handler returns normally and its only effect is the console warning.
\<close>

theorem unknown_tag_is_noop:
  assumes "msg_agent m \<notin> {Some ''SEARCH'', Some ''ANALYST'', Some ''DEV'', Some ''COMPLETE'', Some ''ERROR''}"
  shows "handleBackendMessage m s = Inr (s\<lparr>trace := trace s @ [ConsoleWarn ''[UNKNOWN AGENT]'' m]\<rparr>)
         \<and> dom_elems (state_of (handleBackendMessage m s)) = dom_elems s"
  using assms by (simp add: handle_other console_def)

theorem unknown_tag_is_noop_witness:
  "msg_agent (event ''PLANNER'') \<notin> {Some ''SEARCH'', Some ''ANALYST'', Some ''DEV'', Some ''COMPLETE'', Some ''ERROR''}
   \<and> handleBackendMessage (event ''PLANNER'') fresh_engine
       = Inr (fresh_engine\<lparr>trace := trace fresh_engine @ [ConsoleWarn ''[UNKNOWN AGENT]'' (event ''PLANNER'')]\<rparr>)
   \<and> dom_elems (state_of (handleBackendMessage (event ''PLANNER'') fresh_engine)) = dom_elems fresh_engine"
proof -
  have h: "msg_agent (event ''PLANNER'') \<notin> {Some ''SEARCH'', Some ''ANALYST'', Some ''DEV'', Some ''COMPLETE'', Some ''ERROR''}"
    by (simp add: event_def)
  show ?thesis using h unknown_tag_is_noop [OF h, of fresh_engine] by blast
qed

text \<open>
  C8. Processing an \<^verbatim>\<open>ERROR\<close> event appends an error line to the terminal log: a \<^verbatim>\<open>div\<close>
  of class \<^verbatim>\<open>log-entry\<close> whose text is \<^verbatim>\<open>[ERROR] \<close> followed by the event's content, or by
  \<^verbatim>\<open>Unknown error occurred\<close> when the content is absent (or empty). It sets the island to
  its failure indication (\<^verbatim>\<open>idle\<close>, \<^verbatim>\<open>ERROR OCCURRED\<close>, a red dot), returns normally, leaves
  the three stage cards as they were, and has no effect outside the page but one
  console entry: it does not close the stream.
\<close>

theorem error_event_effect:
  assumes "msg_agent m = Some ''ERROR''"
    and "terminal (dom_elems s) \<noteq> None"
    and "island (dom_elems s) \<noteq> None" and "islandText (dom_elems s) \<noteq> None"
  shows "\<exists>s'. handleBackendMessage m s = Inr s'
           \<and> map_option children (terminal (dom_elems s'))
               = map_option (\<lambda>e. children e
                   @ [\<lparr>child_tagName = ''div'', child_className = ''log-entry'',
                       child_innerText =
                         ''[ERROR] ''
                         @ (case msg_content m of
                              None \<Rightarrow> ''Unknown error occurred''
                            | Some c \<Rightarrow> if c = [] then ''Unknown error occurred'' else c),
                       child_marginBottom = []\<rparr>])
                   (terminal (dom_elems s))
           \<and> map_option classList (island (dom_elems s')) = Some [''dynamic-island'', ''idle'']
           \<and> map_option innerText (islandText (dom_elems s')) = Some ''ERROR OCCURRED''
           \<and> map_option background (islandDot (dom_elems s'))
               = map_option (\<lambda>_. ''#ff2a6d'') (islandDot (dom_elems s))
           \<and> (\<forall>r. card_get r (dom_elems s') = card_get r (dom_elems s))
           \<and> trace s' = trace s @ [ConsoleError ''[BACKEND ERROR]'' (Some m)]"
proof -
  let ?s0 = "logToTerminal (''[ERROR] '' @ text_or (msg_content m) ''Unknown error occurred'') s"
  obtain i t l where els: "island (dom_elems s) = Some i" "islandText (dom_elems s) = Some t"
      "terminal (dom_elems s) = Some l"
    using assms by blast
  have p: "island (dom_elems ?s0) \<noteq> None" "islandText (dom_elems ?s0) \<noteq> None"
    using els by (simp_all add: helper_defs)
  show ?thesis
    unfolding handle_ERROR [OF assms(1)] updateIsland_present [OF p]
    using els
    by (cases "islandDot (dom_elems s)")
       (simp_all add: andThen_def logToTerminal_def console_def appendChild_def card_get_def
             new_child_def text_or_def
             split: card_ref.splits option.splits)
qed

theorem error_event_effect_witness:
  "(\<exists>s'. handleBackendMessage ((event ''ERROR'')\<lparr>msg_content := Some ''boom''\<rparr>) fresh_engine = Inr s'
       \<and> map_option children (terminal (dom_elems s'))
           = Some [\<lparr>child_tagName = ''div'', child_className = ''log-entry'',
                    child_innerText = ''[ERROR] boom'', child_marginBottom = []\<rparr>]
       \<and> map_option classList (island (dom_elems s')) = Some [''dynamic-island'', ''idle'']
       \<and> map_option innerText (islandText (dom_elems s')) = Some ''ERROR OCCURRED''
       \<and> map_option background (islandDot (dom_elems s')) = Some ''#ff2a6d'')
   \<and> (\<exists>s'. handleBackendMessage (event ''ERROR'') fresh_engine = Inr s'
       \<and> map_option children (terminal (dom_elems s'))
           = Some [\<lparr>child_tagName = ''div'', child_className = ''log-entry'',
                    child_innerText = ''[ERROR] Unknown error occurred'', child_marginBottom = []\<rparr>]
       \<and> trace s' = [ConsoleError ''[BACKEND ERROR]'' (Some (event ''ERROR''))])"
proof -
  let ?m1 = "(event ''ERROR'')\<lparr>msg_content := Some ''boom''\<rparr>"
  let ?m2 = "event ''ERROR''"
  have m1: "msg_agent ?m1 = Some ''ERROR''" and m2: "msg_agent ?m2 = Some ''ERROR''"
    by (simp_all add: event_def)
  have c1: "msg_content ?m1 = Some ''boom''" and c2: "msg_content ?m2 = None"
    by (simp_all add: event_def)
  have h1: "terminal (dom_elems fresh_engine) \<noteq> None" by code_simp
  have h2: "island (dom_elems fresh_engine) \<noteq> None" by code_simp
  have h3: "islandText (dom_elems fresh_engine) \<noteq> None" by code_simp
  have log: "map_option children (terminal (dom_elems fresh_engine)) = Some []" by code_simp
  have dot: "map_option background (islandDot (dom_elems fresh_engine)) = Some []" by code_simp
  have tr: "trace fresh_engine = []" by code_simp
  obtain l where l: "terminal (dom_elems fresh_engine) = Some l" "children l = []"
    using log by (cases "terminal (dom_elems fresh_engine)") auto
  obtain d where d: "islandDot (dom_elems fresh_engine) = Some d"
    using dot by (cases "islandDot (dom_elems fresh_engine)") auto
  from error_event_effect [OF m1 h1 h2 h3]
  have "\<exists>s'. handleBackendMessage ?m1 fresh_engine = Inr s'
       \<and> map_option children (terminal (dom_elems s'))
           = Some [\<lparr>child_tagName = ''div'', child_className = ''log-entry'',
                    child_innerText = ''[ERROR] boom'', child_marginBottom = []\<rparr>]
       \<and> map_option classList (island (dom_elems s')) = Some [''dynamic-island'', ''idle'']
       \<and> map_option innerText (islandText (dom_elems s')) = Some ''ERROR OCCURRED''
       \<and> map_option background (islandDot (dom_elems s')) = Some ''#ff2a6d''"
    by (simp add: c1 l d) blast
  moreover from error_event_effect [OF m2 h1 h2 h3]
  have "\<exists>s'. handleBackendMessage ?m2 fresh_engine = Inr s'
       \<and> map_option children (terminal (dom_elems s'))
           = Some [\<lparr>child_tagName = ''div'', child_className = ''log-entry'',
                    child_innerText = ''[ERROR] Unknown error occurred'', child_marginBottom = []\<rparr>]
       \<and> trace s' = [ConsoleError ''[BACKEND ERROR]'' (Some (event ''ERROR''))]"
    by (simp add: c2 l tr) blast
  ultimately show ?thesis by blast
qed

text \<open>
  C9 (as amended). For every invocation of \<^verbatim>\<open>initiateRealProtocol\<close> whose input value is
  not blank, by a non-premium user: if the engine's search count is at least 3, the
  paywall modal is shown, no request is made and the count (also the stored one) is
  unchanged; if it is 0, 1 or 2, the count is incremented by exactly 1 and persisted
  (as \<^verbatim>\<open>1\<close>, \<^verbatim>\<open>2\<close> or \<^verbatim>\<open>3\<close>) before the bootstrap request to \<^verbatim>\<open>/start\<close> is made. For every
  invocation at all, premium users never see the paywall and never have the count
  incremented.
\<close>

theorem quota_gate:
  "(isPremium s \<longrightarrow>
      searchCount (state_of (initiateRealProtocol s)) = searchCount s
      \<and> paywallModal (dom_elems (state_of (initiateRealProtocol s))) = paywallModal (dom_elems s))
   \<and> (\<forall>inp. input (dom_elems s) = Some inp \<and> js_trim (input_value inp) \<noteq> [] \<and> \<not> isPremium s \<longrightarrow>
        (3 \<le> searchCount s \<and> paywallModal (dom_elems s) \<noteq> None \<longrightarrow>
           (\<exists>s'. initiateRealProtocol s = Inr s'
              \<and> \<not> has_class ''hidden'' (paywallModal (dom_elems s'))
              \<and> trace s' = trace s \<and> searchCount s' = searchCount s
              \<and> localStorage s' = localStorage s))
        \<and> (0 \<le> searchCount s \<and> searchCount s < 3
            \<and> island (dom_elems s) \<noteq> None \<and> islandText (dom_elems s) \<noteq> None \<longrightarrow>
           (\<exists>s' stored req. initiateRealProtocol s = Inr s'
              \<and> stored = (if searchCount s = 0 then ''1'' else if searchCount s = 1 then ''2'' else ''3'')
              \<and> searchCount s' = searchCount s + 1
              \<and> localStorage s' ''wyronix_search_count'' = Some stored
              \<and> trace s' = trace s
                   @ [ConsoleLog (''[ACTION] Initiating sequence for: '' @ js_trim (input_value inp)),
                      StorageSet ''wyronix_search_count'' stored,
                      Fetch req]
              \<and> req_url req = ''http://localhost:8000/api/v1/start''
              \<and> req_method req = ''POST''
              \<and> req_project_idea req = js_trim (input_value inp)
              \<and> paywallModal (dom_elems s') = paywallModal (dom_elems s))))"
proof (intro conjI impI allI)
  assume "isPremium s"
  then show "searchCount (state_of (initiateRealProtocol s)) = searchCount s"
    and "paywallModal (dom_elems (state_of (initiateRealProtocol s))) = paywallModal (dom_elems s)"
    using initiate_premium by blast+
next
  fix inp
  assume a: "input (dom_elems s) = Some inp \<and> js_trim (input_value inp) \<noteq> [] \<and> \<not> isPremium s"
    and b: "3 \<le> searchCount s \<and> paywallModal (dom_elems s) \<noteq> None"
  then obtain pw where "paywallModal (dom_elems s) = Some pw" by blast
  with a b initiate_paywall [of s inp]
  show "\<exists>s'. initiateRealProtocol s = Inr s'
              \<and> \<not> has_class ''hidden'' (paywallModal (dom_elems s'))
              \<and> trace s' = trace s \<and> searchCount s' = searchCount s
              \<and> localStorage s' = localStorage s"
    by (simp add: has_class_def classList_remove_def)
next
  fix inp :: element
  let ?idea = "js_trim (input_value inp)"
  let ?stored = "if searchCount s = 0 then ''1'' else if searchCount s = 1 then ''2'' else ''3''"
  assume a: "input (dom_elems s) = Some inp \<and> js_trim (input_value inp) \<noteq> [] \<and> \<not> isPremium s"
    and b: "0 \<le> searchCount s \<and> searchCount s < 3
            \<and> island (dom_elems s) \<noteq> None \<and> islandText (dom_elems s) \<noteq> None"
  from b have "searchCount s = 0 \<or> searchCount s = 1 \<or> searchCount s = 2"
    by arith
  moreover have "toString 1 = ''1''" "toString 2 = ''2''" "toString 3 = ''3''"
    by code_simp+
  ultimately have str: "toString (searchCount s + 1) = ?stored"
    by auto
  from a b initiate_counted [of s inp] obtain s' where s':
    "initiateRealProtocol s = Inr s'"
    "searchCount s' = searchCount s + 1"
    "localStorage s' ''wyronix_search_count'' = Some (toString (searchCount s + 1))"
    "trace s' = trace s
       @ [ConsoleLog (''[ACTION] Initiating sequence for: '' @ ?idea),
          StorageSet ''wyronix_search_count'' (toString (searchCount s + 1)),
          Fetch (start_request ?idea s')]"
    "paywallModal (dom_elems s') = paywallModal (dom_elems s)"
    by blast
  have req: "req_url (start_request ?idea s') = ''http://localhost:8000/api/v1/start''"
    "req_method (start_request ?idea s') = ''POST''"
    "req_project_idea (start_request ?idea s') = ?idea"
    by (simp_all add: start_request_def API_URL_def Let_def)
  show "\<exists>s' stored req. initiateRealProtocol s = Inr s'
              \<and> stored = ?stored
              \<and> searchCount s' = searchCount s + 1
              \<and> localStorage s' ''wyronix_search_count'' = Some stored
              \<and> trace s' = trace s
                   @ [ConsoleLog (''[ACTION] Initiating sequence for: '' @ js_trim (input_value inp)),
                      StorageSet ''wyronix_search_count'' stored,
                      Fetch req]
              \<and> req_url req = ''http://localhost:8000/api/v1/start''
              \<and> req_method req = ''POST''
              \<and> req_project_idea req = js_trim (input_value inp)
              \<and> paywallModal (dom_elems s') = paywallModal (dom_elems s)"
    using s' req unfolding str by blast
qed

theorem quota_gate_witness:
  "(\<exists>s'. initiateRealProtocol (with_input ''app'' fresh_engine) = Inr s'
       \<and> searchCount s' = 1
       \<and> localStorage s' ''wyronix_search_count'' = Some ''1'')
   \<and> (\<exists>s'. initiateRealProtocol (with_input ''app'' (fresh_engine\<lparr>searchCount := 3\<rparr>)) = Inr s'
       \<and> \<not> has_class ''hidden'' (paywallModal (dom_elems s'))
       \<and> trace s' = trace (with_input ''app'' (fresh_engine\<lparr>searchCount := 3\<rparr>)))
   \<and> searchCount (state_of (initiateRealProtocol (with_input ''app'' (fresh_engine\<lparr>isPremium := True, searchCount := 3\<rparr>))))
       = 3"
proof -
  let ?inp = "blank_element\<lparr>input_value := ''app''\<rparr>"
  let ?s1 = "with_input ''app'' fresh_engine"
  let ?s2 = "with_input ''app'' (fresh_engine\<lparr>searchCount := 3\<rparr>)"
  let ?s3 = "with_input ''app'' (fresh_engine\<lparr>isPremium := True, searchCount := 3\<rparr>)"
  have trim: "js_trim (input_value ?inp) \<noteq> []"
    by code_simp
  have a1: "input (dom_elems ?s1) = Some ?inp \<and> js_trim (input_value ?inp) \<noteq> [] \<and> \<not> isPremium ?s1"
    using trim by code_simp
  have b1: "0 \<le> searchCount ?s1 \<and> searchCount ?s1 < 3
            \<and> island (dom_elems ?s1) \<noteq> None \<and> islandText (dom_elems ?s1) \<noteq> None"
    by code_simp
  have c1: "searchCount ?s1 = 0"
    by code_simp
  have a2: "input (dom_elems ?s2) = Some ?inp \<and> js_trim (input_value ?inp) \<noteq> [] \<and> \<not> isPremium ?s2"
    using trim by code_simp
  have b2: "3 \<le> searchCount ?s2 \<and> paywallModal (dom_elems ?s2) \<noteq> None"
    by code_simp
  have a3: "isPremium ?s3" "searchCount ?s3 = 3"
    by code_simp+
  from quota_gate [of ?s1] a1 b1
  have "\<exists>s'. initiateRealProtocol ?s1 = Inr s'
          \<and> searchCount s' = searchCount ?s1 + 1
          \<and> localStorage s' ''wyronix_search_count''
              = Some (if searchCount ?s1 = 0 then ''1'' else if searchCount ?s1 = 1 then ''2'' else ''3'')"
    by blast
  then have "\<exists>s'. initiateRealProtocol ?s1 = Inr s' \<and> searchCount s' = 1
          \<and> localStorage s' ''wyronix_search_count'' = Some ''1''"
    unfolding c1 by simp
  moreover from quota_gate [of ?s2] a2 b2
  have "\<exists>s'. initiateRealProtocol ?s2 = Inr s'
          \<and> \<not> has_class ''hidden'' (paywallModal (dom_elems s')) \<and> trace s' = trace ?s2"
    by blast
  moreover from quota_gate [of ?s3] a3
  have "searchCount (state_of (initiateRealProtocol ?s3)) = 3"
    by simp
  ultimately show ?thesis
    by blast
qed

text \<open>
  C9 as stated fails for a blank input: the emptiness check comes first, so a
  non-premium user at the limit who submits an empty input sees no paywall (the
  modal keeps its \<^verbatim>\<open>hidden\<close> class).
\<close>

theorem quota_gate_blank_counterexample:
  "\<not> isPremium (fresh_engine\<lparr>searchCount := 3\<rparr>)
   \<and> 3 \<le> searchCount (fresh_engine\<lparr>searchCount := 3\<rparr>)
   \<and> has_class ''hidden''
        (paywallModal (dom_elems (state_of (initiateRealProtocol (fresh_engine\<lparr>searchCount := 3\<rparr>)))))"
  by code_simp

text \<open>
  C10. For every invocation of \<^verbatim>\<open>initiateRealProtocol\<close> where the input's value is empty
  or trims to the empty string, the function returns normally and the only changes
  are the red border of the input's parent and the timer that restores it: no request
  is made and the search count, the session state and every other element are
  unchanged.
\<close>

theorem blank_input_only_shakes:
  assumes "input (dom_elems s) = Some inp" and "js_trim (input_value inp) = []"
  shows "initiateRealProtocol s =
     Inr (s\<lparr>dom_elems := (dom_elems s)\<lparr>input := Some (inp\<lparr>parent_borderColor := ''var(--accent-red)''\<rparr>)\<rparr>,
           trace := trace s @ [SetTimeout RestoreInputBorder 500]\<rparr>)"
  using assms by (simp add: initiateRealProtocol_def shakeInput_present)

theorem blank_input_only_shakes_witness:
  "initiateRealProtocol (with_input ''   '' fresh_engine) =
     Inr ((with_input ''   '' fresh_engine)
           \<lparr>dom_elems := (dom_elems (with_input ''   '' fresh_engine))
              \<lparr>input := Some (blank_element\<lparr>input_value := ''   '', parent_borderColor := ''var(--accent-red)''\<rparr>)\<rparr>,
            trace := trace (with_input ''   '' fresh_engine) @ [SetTimeout RestoreInputBorder 500]\<rparr>)"
proof -
  have h1: "input (dom_elems (with_input ''   '' fresh_engine)) = Some (blank_element\<lparr>input_value := ''   ''\<rparr>)"
    by code_simp
  have h2: "js_trim (input_value (blank_element\<lparr>input_value := ''   ''\<rparr>)) = []"
    by code_simp
  show ?thesis
    using blank_input_only_shakes [OF h1 h2] by simp
qed

end
